theory Spec2Isabelle
  imports Complex_Main "HOL-Library.AList" "HOL-Library.Sublist"
begin

section \<open>The battery control engine of tinkerbms (src/tinkerbms/battery.py)\<close>

text \<open>
  Numbers. Python's \<open>int\<close> and \<open>float\<close> values are modelled as exact rationals
  (\<open>rat\<close>), integer timestamps (\<open>int(time())\<close>) as \<open>int\<close>. An attribute that may hold
  \<open>None\<close> is an \<open>option\<close>. Logging and the diagnostic text \<open>charge_mode_debug\<close> are
  left out of the state; what the debug block can raise is kept (see
  \<open>manage_charge_voltage_linear\<close>).
\<close>

subsection \<open>Python primitives\<close>

datatype exc = TypeError | AttributeError | ZeroDivisionError | ValueError | IndexError | KeyError

text \<open>\<open>round(x, n)\<close>: to the nearest multiple of \<open>10 ^ -n\<close>, ties to the even one.\<close>

definition round_half_even :: "rat \<Rightarrow> int" where
  "round_half_even y =
     (let f = \<lfloor>y\<rfloor>; d = y - of_int f
      in if d < 1 / 2 then f
         else if 1 / 2 < d then f + 1
         else if even f then f else f + 1)"

definition py_round :: "rat \<Rightarrow> nat \<Rightarrow> rat" where
  "py_round x n = of_int (round_half_even (x * 10 ^ n)) / 10 ^ n"

text \<open>\<open>int(x)\<close> on a float truncates towards zero.\<close>

definition py_int :: "rat \<Rightarrow> int" where
  "py_int x = (if 0 \<le> x then \<lfloor>x\<rfloor> else \<lceil>x\<rceil>)"

text \<open>Truthiness of an optional number: \<open>None\<close> and \<open>0\<close> are false.\<close>

fun truthy :: "rat option \<Rightarrow> bool" where
  "truthy None = False"
| "truthy (Some x) = (x \<noteq> 0)"

fun truthy_int :: "int option \<Rightarrow> bool" where
  "truthy_int None = False"
| "truthy_int (Some x) = (x \<noteq> 0)"

subsection \<open>Data model\<close>

text \<open>class \<open>Protection\<close>: every field starts as \<open>None\<close>.\<close>

record protection =
  voltage_high :: "int option"
  voltage_low :: "int option"
  voltage_cell_low :: "int option"
  soc_low :: "int option"
  current_over :: "int option"
  current_under :: "int option"
  cell_imbalance :: "int option"
  internal_failure :: "int option"
  temp_high_charge :: "int option"
  temp_low_charge :: "int option"
  temp_high_discharge :: "int option"
  temp_low_discharge :: "int option"
  temp_high_internal :: "int option"

definition Protection :: protection where
  "Protection = \<lparr>voltage_high = None, voltage_low = None, voltage_cell_low = None,
     soc_low = None, current_over = None, current_under = None, cell_imbalance = None,
     internal_failure = None, temp_high_charge = None, temp_low_charge = None,
     temp_high_discharge = None, temp_low_discharge = None, temp_high_internal = None\<rparr>"

text \<open>class \<open>Cell\<close>.\<close>

record cell =
  cell_voltage :: "rat option"
  balance :: "bool option"
  temp :: "rat option"

text \<open>
  class \<open>Battery\<close>. The first group of fields is assigned in \<open>__init__\<close> only, the second
  group in \<open>init_values\<close>. The last three are attributes that exist only once a driver or
  the controller has assigned them (\<open>hasattr\<close>); \<open>None\<close> stands for an absent attribute
  (for \<open>cell_min_voltage\<close> and \<open>cell_max_voltage\<close> also for one holding \<open>None\<close>, which
  the getters treat alike).
\<close>

record battery =
  port :: string
  baud_rate :: int
  role :: string
  battery_type :: string
  poll_interval :: int
  online :: bool
  hardware_version :: "string option"
  cell_count :: "int option"
  max_battery_charge_current :: "rat option"
  max_battery_discharge_current :: "rat option"
  has_settings :: bool
  soc_calc_capacity_remain :: "rat option"
  soc_calc_capacity_remain_lasttime :: "rat option"
  soc_calc_reset_starttime :: "int option"
  soc_calc :: "rat option"
  soc :: "rat option"
  charge_fet :: "bool option"
  discharge_fet :: "bool option"
  balance_fet :: "bool option"
  block_because_disconnect :: bool
  control_charge_current :: "rat option"
  control_discharge_current :: "rat option"
  control_allow_charge :: "bool option"
  control_allow_discharge :: "bool option"
  custom_field :: "string option"

  voltage :: "rat option"
  current :: "rat option"
  current_avg :: "rat option"
  current_avg_lst :: "rat list"
  current_corrected :: "rat option"
  capacity_remain :: "rat option"
  capacity :: "rat option"
  cycles :: "rat option"
  total_ah_drawn :: "rat option"
  production :: "string option"
  protection :: protection
  version :: "string option"
  time_to_soc_update :: int
  temp_sensors :: "int option"
  temp1 :: "rat option"
  temp2 :: "rat option"
  temp3 :: "rat option"
  temp4 :: "rat option"
  temp_mos :: "rat option"
  cells :: "cell list"
  control_voltage :: "rat option"
  soc_reset_requested :: bool
  soc_reset_last_reached :: int
  soc_reset_battery_voltage :: "rat option"
  max_battery_voltage :: "rat option"
  min_battery_voltage :: "rat option"
  allow_max_voltage :: bool
  max_voltage_start_time :: "int option"
  transition_start_time :: "int option"
  charge_mode :: "string option"
  charge_limitation :: "string option"
  discharge_limitation :: "string option"
  linear_cvl_last_set :: int
  linear_ccl_last_set :: int
  linear_dcl_last_set :: int
  available_callbacks :: "string list"

  initial_control_voltage :: "rat option"
  cell_min_voltage :: "rat option"
  cell_max_voltage :: "rat option"

subsection \<open>init_values\<close>

definition init_values :: "battery \<Rightarrow> battery" where
  "init_values s = s\<lparr>
     voltage := None,
     current := None,
     current_avg := None,
     current_avg_lst := [],
     current_corrected := None,
     capacity_remain := None,
     capacity := None,
     cycles := None,
     total_ah_drawn := None,
     production := None,
     protection := Protection,
     version := None,
     time_to_soc_update := 0,
     temp_sensors := None,
     temp1 := None,
     temp2 := None,
     temp3 := None,
     temp4 := None,
     temp_mos := None,
     cells := [],
     control_voltage := None,
     soc_reset_requested := False,
     soc_reset_last_reached := 0,
     soc_reset_battery_voltage := None,
     max_battery_voltage := None,
     min_battery_voltage := None,
     allow_max_voltage := True,
     max_voltage_start_time := None,
     transition_start_time := None,
     charge_mode := None,
     charge_limitation := None,
     discharge_limitation := None,
     linear_cvl_last_set := 0,
     linear_ccl_last_set := 0,
     linear_dcl_last_set := 0,
     available_callbacks := []\<rparr>"

subsection \<open>validate_data\<close>

definition validate_data :: "battery \<Rightarrow> bool" where
  "validate_data s =
     (if capacity s \<noteq> None \<and> (the (capacity s) < 0 \<or> 1000 < the (capacity s)) then False
      else if current s \<noteq> None \<and> 1000 < \<bar>the (current s)\<bar> then False
      else if voltage s \<noteq> None \<and> (the (voltage s) < 0 \<or> 100 < the (voltage s)) then False
      else if soc s \<noteq> None \<and> (the (soc s) < 0 \<or> 100 < the (soc s)) then False
      else True)"

subsection \<open>Configuration: the module \<open>utils\<close>\<close>

text \<open>
  The module \<open>utils\<close> is not part of the sources at hand. Its constants and its two
  interpolation helpers are parameters of the model: a record of the values the engine
  reads. A helper either returns a number or raises. \<open>LOG_DEBUG\<close> stands for
  \<open>logger.isEnabledFor(logging.DEBUG)\<close>.
\<close>

record utils =
  MIN_CELL_VOLTAGE :: rat
  MAX_CELL_VOLTAGE :: rat
  FLOAT_CELL_VOLTAGE :: rat
  SOC_RESET_VOLTAGE :: rat
  SOC_RESET_CURRENT :: rat
  SOC_RESET_TIME :: rat
  VOLTAGE_DROP :: rat
  SOC_CALC_CURRENT_REPORTED_BY_BMS :: "rat list"
  SOC_CALC_CURRENT_MEASURED_BY_USER :: "rat list"
  CELL_VOLTAGE_DIFF_KEEP_MAX_VOLTAGE_UNTIL :: rat
  CELL_VOLTAGE_DIFF_KEEP_MAX_VOLTAGE_TIME_RESTART :: rat
  CELL_VOLTAGE_DIFF_TO_RESET_VOLTAGE_LIMIT :: rat
  SOC_LEVEL_TO_RESET_VOLTAGE_LIMIT :: rat
  MAX_VOLTAGE_TIME_SEC :: rat
  CVL_ICONTROLLER_MODE :: bool
  CVL_ICONTROLLER_FACTOR :: rat
  LINEAR_LIMITATION_ENABLE :: bool
  LINEAR_RECALCULATION_EVERY :: rat
  LINEAR_RECALCULATION_ON_PERC_CHANGE :: rat
  MAX_BATTERY_CHARGE_CURRENT :: rat
  MAX_BATTERY_DISCHARGE_CURRENT :: rat
  CCCM_CV_ENABLE :: bool
  CCCM_T_ENABLE :: bool
  CCCM_SOC_ENABLE :: bool
  DCCM_CV_ENABLE :: bool
  DCCM_T_ENABLE :: bool
  DCCM_SOC_ENABLE :: bool
  CELL_VOLTAGES_WHILE_CHARGING :: "rat list"
  MAX_CHARGE_CURRENT_CV :: "rat list"
  CELL_VOLTAGES_WHILE_DISCHARGING :: "rat list"
  MAX_DISCHARGE_CURRENT_CV :: "rat list"
  TEMPERATURES_WHILE_CHARGING :: "rat list"
  MAX_CHARGE_CURRENT_T :: "rat list"
  TEMPERATURES_WHILE_DISCHARGING :: "rat list"
  MAX_DISCHARGE_CURRENT_T :: "rat list"
  SOC_WHILE_CHARGING :: "rat list"
  MAX_CHARGE_CURRENT_SOC :: "rat list"
  SOC_WHILE_DISCHARGING :: "rat list"
  MAX_DISCHARGE_CURRENT_SOC :: "rat list"
  calcLinearRelationship :: "rat option \<Rightarrow> rat list \<Rightarrow> rat list \<Rightarrow> exc + rat"
  calcStepRelationship :: "rat option \<Rightarrow> rat list \<Rightarrow> rat list \<Rightarrow> bool \<Rightarrow> exc + rat"
  LOG_DEBUG :: bool

subsection \<open>Outcomes of a method\<close>

text \<open>
  A method either returns or raises; in both cases the attributes it has assigned so far
  stay assigned, so both outcomes carry the state.
\<close>

datatype outcome = Return battery | Raise exc battery

fun and_then :: "outcome \<Rightarrow> (battery \<Rightarrow> outcome) \<Rightarrow> outcome" where
  "and_then (Return s) f = f s"
| "and_then (Raise e s) f = Raise e s"

fun state_of :: "outcome \<Rightarrow> battery" where
  "state_of (Return s) = s"
| "state_of (Raise e s) = s"

fun returns :: "outcome \<Rightarrow> bool" where
  "returns (Return s) = True"
| "returns (Raise e s) = False"

subsection \<open>Aggregators\<close>

text \<open>The voltages of the cells that have one, in cell order.\<close>

definition known_voltages :: "battery \<Rightarrow> rat list" where
  "known_voltages s = List.map_filter cell_voltage (cells s)"

definition get_min_cell_voltage :: "battery \<Rightarrow> rat option" where
  "get_min_cell_voltage s =
     (case cell_min_voltage s of
        Some v \<Rightarrow> Some v
      | None \<Rightarrow> (case known_voltages s of [] \<Rightarrow> None | v # vs \<Rightarrow> Some (fold min vs v)))"

definition get_max_cell_voltage :: "battery \<Rightarrow> rat option" where
  "get_max_cell_voltage s =
     (case cell_max_voltage s of
        Some v \<Rightarrow> Some v
      | None \<Rightarrow> (case known_voltages s of [] \<Rightarrow> None | v # vs \<Rightarrow> Some (fold max vs v)))"

text \<open>\<open>get_cell_voltage\<close>: \<open>min(len(self.cells), self.cell_count)\<close> raises on a missing
  cell count.\<close>

definition get_cell_voltage :: "battery \<Rightarrow> nat \<Rightarrow> exc + rat option" where
  "get_cell_voltage s idx =
     (case cell_count s of
        None \<Rightarrow> Inl TypeError
      | Some n \<Rightarrow>
          if min (int (length (cells s))) n \<le> int idx then Inr None
          else Inr (cell_voltage (cells s ! idx)))"

definition temps :: "battery \<Rightarrow> rat list" where
  "temps s = List.map_filter id [temp1 s, temp2 s, temp3 s, temp4 s]"

definition get_min_temp :: "battery \<Rightarrow> rat option" where
  "get_min_temp s = (case temps s of [] \<Rightarrow> None | t # ts \<Rightarrow> Some (fold min ts t))"

definition get_max_temp :: "battery \<Rightarrow> rat option" where
  "get_max_temp s = (case temps s of [] \<Rightarrow> None | t # ts \<Rightarrow> Some (fold max ts t))"

text \<open>\<open>get_balancing\<close>: \<open>range(min(len(self.cells), self.cell_count))\<close>.\<close>

definition get_balancing :: "battery \<Rightarrow> exc + bool" where
  "get_balancing s =
     (case cell_count s of
        None \<Rightarrow> Inl TypeError
      | Some n \<Rightarrow>
          Inr (list_ex (\<lambda>c. balance c = Some True)
                 (take (nat (min (int (length (cells s))) n)) (cells s))))"

subsection \<open>soc_calculation\<close>

text \<open>The loop \<open>for i in range(self.cell_count)\<close> adding up the cell voltages that are
  neither \<open>None\<close> nor \<open>0\<close>.\<close>

fun sum_cells :: "battery \<Rightarrow> nat list \<Rightarrow> rat \<Rightarrow> exc + rat" where
  "sum_cells s [] voltage_sum = Inr voltage_sum"
| "sum_cells s (i # is) voltage_sum =
     (case get_cell_voltage s i of
        Inl e \<Rightarrow> Inl e
      | Inr v \<Rightarrow> sum_cells s is (if truthy v then voltage_sum + the v else voltage_sum))"

definition cell_voltage_sum :: "battery \<Rightarrow> exc + rat" where
  "cell_voltage_sum s =
     (case cell_count s of
        None \<Rightarrow> Inl TypeError
      | Some n \<Rightarrow> sum_cells s [0 ..< nat n] 0)"

text \<open>Lines 260-283: corrected current, integration, clamp.\<close>

definition soc_integrate :: "utils \<Rightarrow> rat \<Rightarrow> battery \<Rightarrow> outcome" where
  "soc_integrate u current_time s =
     (case calcLinearRelationship u (current s) (SOC_CALC_CURRENT_REPORTED_BY_BMS u)
             (SOC_CALC_CURRENT_MEASURED_BY_USER u) of
        Inl e \<Rightarrow> Raise e s
      | Inr c \<Rightarrow>
          let s1 = s\<lparr>current_corrected := Some (py_round c 2)\<rparr> in
          (case (soc_calc_capacity_remain s1, soc_calc_capacity_remain_lasttime s1) of
             (Some remain, Some lasttime) \<Rightarrow>
               let s2 = s1\<lparr>soc_calc_capacity_remain :=
                             Some (remain + py_round c 2 * (current_time - lasttime) / 3600)\<rparr> in
               (case capacity s2 of
                  None \<Rightarrow> Raise TypeError s2
                | Some cap \<Rightarrow>
                    Return (s2\<lparr>soc_calc_capacity_remain :=
                                   Some (max (min (the (soc_calc_capacity_remain s2)) cap) 0),
                                 soc_calc_capacity_remain_lasttime := Some current_time\<rparr>))
           | _ \<Rightarrow> Raise TypeError s1))"

text \<open>Lines 285-303: the snap to 100 %.\<close>

definition soc_check_full :: "utils \<Rightarrow> rat \<Rightarrow> rat \<Rightarrow> rat option \<Rightarrow> battery \<Rightarrow> outcome" where
  "soc_check_full u current_time voltage_sum current_min_cell_voltage s =
     (case current_min_cell_voltage of
        None \<Rightarrow> Raise TypeError s
      | Some mcv \<Rightarrow>
          if MAX_CELL_VOLTAGE u * (99 / 100) < mcv then
            (case current s of
               None \<Rightarrow> Raise TypeError s
             | Some cur \<Rightarrow>
                 if cur < SOC_RESET_CURRENT u then
                   (case max_battery_voltage s of
                      None \<Rightarrow> Raise TypeError s
                    | Some mbv \<Rightarrow>
                        if mbv - VOLTAGE_DROP u \<le> voltage_sum
                           \<and> truthy_int (soc_calc_reset_starttime s) then
                          (if SOC_RESET_TIME u
                                < of_int (py_int current_time - the (soc_calc_reset_starttime s))
                              \<and> soc_calc_capacity_remain s \<noteq> capacity s
                           then Return (s\<lparr>soc_calc_capacity_remain := capacity s\<rparr>)
                           else Return s)
                        else Return (s\<lparr>soc_calc_reset_starttime := Some (py_int current_time)\<rparr>))
                 else Return (s\<lparr>soc_calc_reset_starttime := Some (py_int current_time)\<rparr>))
          else Return s)"

text \<open>Lines 305-325: the snap to 0 %.\<close>

definition soc_check_empty :: "utils \<Rightarrow> rat \<Rightarrow> rat option \<Rightarrow> battery \<Rightarrow> outcome" where
  "soc_check_empty u current_time current_min_cell_voltage s =
     (case current_min_cell_voltage of
        None \<Rightarrow> Raise TypeError s
      | Some mcv \<Rightarrow>
          if mcv < MIN_CELL_VOLTAGE u * (101 / 100) then
            (case current s of
               None \<Rightarrow> Raise TypeError s
             | Some cur \<Rightarrow>
                 if cur < SOC_RESET_CURRENT u then
                   (case cell_count s of
                      None \<Rightarrow> Raise TypeError s
                    | Some n \<Rightarrow>
                        if n = 0 then Raise ZeroDivisionError s
                        else if mcv - VOLTAGE_DROP u / of_int n \<le> MIN_CELL_VOLTAGE u
                                \<and> truthy_int (soc_calc_reset_starttime s) then
                          (if SOC_RESET_TIME u
                                < of_int (py_int current_time - the (soc_calc_reset_starttime s))
                              \<and> soc_calc_capacity_remain s \<noteq> Some 0
                           then Return (s\<lparr>soc_calc_capacity_remain := Some 0\<rparr>)
                           else Return s)
                        else Return (s\<lparr>soc_calc_reset_starttime := Some (py_int current_time)\<rparr>))
                 else Return (s\<lparr>soc_calc_reset_starttime := Some (py_int current_time)\<rparr>))
          else Return s)"

text \<open>Lines 327-348: the first tick seeds the accumulator.\<close>

definition soc_initialize :: "rat \<Rightarrow> battery \<Rightarrow> outcome" where
  "soc_initialize current_time s =
     and_then
       (case soc_calc s of
          None \<Rightarrow>
            (case soc s of
               Some bms_soc \<Rightarrow>
                 (case capacity s of
                    None \<Rightarrow> Raise TypeError s
                  | Some cap \<Rightarrow> Return (s\<lparr>soc_calc_capacity_remain := Some (cap * bms_soc / 100)\<rparr>))
             | None \<Rightarrow> Return (s\<lparr>soc_calc_capacity_remain := capacity s\<rparr>))
        | Some sc \<Rightarrow>
            (case soc s of
               None \<Rightarrow> Raise TypeError s
             | Some bms_soc \<Rightarrow>
                 if 0 < bms_soc then
                   (case capacity s of
                      None \<Rightarrow> Raise TypeError s
                    | Some cap \<Rightarrow> Return (s\<lparr>soc_calc_capacity_remain := Some (cap * sc / 100)\<rparr>))
                 else Return (s\<lparr>soc_calc_capacity_remain := Some 0\<rparr>)))
       (\<lambda>s1. Return (s1\<lparr>soc_calc_capacity_remain_lasttime := Some current_time\<rparr>))"

text \<open>Lines 350-353.\<close>

definition soc_finalize :: "battery \<Rightarrow> outcome" where
  "soc_finalize s =
     (case (soc_calc_capacity_remain s, capacity s) of
        (Some remain, Some cap) \<Rightarrow>
          if cap = 0 then Raise ZeroDivisionError s
          else Return (s\<lparr>soc_calc := Some (py_round (max (min (remain / cap * 100) 100) 0) 2)\<rparr>)
      | _ \<Rightarrow> Raise TypeError s)"

definition soc_calculation :: "utils \<Rightarrow> rat \<Rightarrow> battery \<Rightarrow> outcome" where
  "soc_calculation u current_time s =
     (let s1 = s\<lparr>current_corrected := Some 0\<rparr>;
          current_min_cell_voltage = get_min_cell_voltage s1
      in case cell_voltage_sum s1 of
           Inl e \<Rightarrow> Raise e s1
         | Inr voltage_sum \<Rightarrow>
             and_then
               (if soc_calc_capacity_remain s1 \<noteq> None then
                  and_then (soc_integrate u current_time s1) (\<lambda>s2.
                  and_then (soc_check_full u current_time voltage_sum current_min_cell_voltage s2)
                    (soc_check_empty u current_time current_min_cell_voltage))
                else soc_initialize current_time s1)
               soc_finalize)"

subsection \<open>set_cvl_linear\<close>

text \<open>The argument \<open>set_time\<close> is the value of \<open>int(time())\<close> read inside the method.\<close>

definition set_cvl_linear :: "utils \<Rightarrow> int \<Rightarrow> rat \<Rightarrow> battery \<Rightarrow> bool \<times> battery" where
  "set_cvl_linear u set_time cv s =
     (if LINEAR_RECALCULATION_EVERY u \<le> of_int (set_time - linear_cvl_last_set s)
      then (True, s\<lparr>control_voltage := Some cv, linear_cvl_last_set := set_time\<rparr>)
      else (False, s))"

subsection \<open>manage_charge_voltage_linear\<close>

text \<open>Lines 420-439: pack sum, penalty sum and the high-cell flag.\<close>

fun scan_cells ::
  "utils \<Rightarrow> battery \<Rightarrow> nat list \<Rightarrow> rat \<times> rat \<times> bool \<Rightarrow> exc + rat \<times> rat \<times> bool" where
  "scan_cells u s [] acc = Inr acc"
| "scan_cells u s (i # is) (voltage_sum, penalty_sum, found_high_cell_voltage) =
     (case get_cell_voltage s i of
        Inl e \<Rightarrow> Inl e
      | Inr v \<Rightarrow>
          scan_cells u s is
            (if truthy v then
               (if max_battery_voltage s \<noteq> soc_reset_battery_voltage s
                   \<and> MAX_CELL_VOLTAGE u < the v
                then (voltage_sum + the v, penalty_sum + (the v - MAX_CELL_VOLTAGE u), True)
                else if max_battery_voltage s = soc_reset_battery_voltage s
                   \<and> SOC_RESET_VOLTAGE u < the v
                then (voltage_sum + the v, penalty_sum + (the v - SOC_RESET_VOLTAGE u), True)
                else (voltage_sum + the v, penalty_sum, found_high_cell_voltage))
             else (voltage_sum, penalty_sum, found_high_cell_voltage)))"

text \<open>Lines 443-485: the absorption timer.\<close>

definition absorption_timer :: "utils \<Rightarrow> int \<Rightarrow> rat \<Rightarrow> rat \<Rightarrow> battery \<Rightarrow> outcome" where
  "absorption_timer u current_time voltage_sum voltageDiff s =
     (case max_voltage_start_time s of
        None \<Rightarrow>
          (case max_battery_voltage s of
             None \<Rightarrow> Raise TypeError s
           | Some mbv \<Rightarrow>
               if mbv \<le> voltage_sum
                  \<and> voltageDiff \<le> CELL_VOLTAGE_DIFF_KEEP_MAX_VOLTAGE_UNTIL u
                  \<and> allow_max_voltage s
               then Return (s\<lparr>max_voltage_start_time := Some current_time\<rparr>)
               else
                 (case soc_calc s of
                    None \<Rightarrow> Raise TypeError s
                  | Some sc \<Rightarrow>
                      if (sc < SOC_LEVEL_TO_RESET_VOLTAGE_LIMIT u
                          \<or> CELL_VOLTAGE_DIFF_TO_RESET_VOLTAGE_LIMIT u \<le> voltageDiff)
                         \<and> \<not> allow_max_voltage s
                      then Return (s\<lparr>allow_max_voltage := True\<rparr>)
                      else Return s))
      | Some _ \<Rightarrow>
          let s1 = (if CELL_VOLTAGE_DIFF_KEEP_MAX_VOLTAGE_TIME_RESTART u < voltageDiff
                    then s\<lparr>max_voltage_start_time := Some current_time\<rparr> else s);
              time_diff = current_time - the (max_voltage_start_time s1)
          in and_then
               (if MAX_VOLTAGE_TIME_SEC u < of_int time_diff then
                  (let s2 = s1\<lparr>allow_max_voltage := False, max_voltage_start_time := None\<rparr>
                   in case soc_calc s2 of None \<Rightarrow> Raise TypeError s2 | Some _ \<Rightarrow> Return s2)
                else Return s1)
               (\<lambda>s3. case max_battery_voltage s3 of
                        None \<Rightarrow> Raise TypeError s3
                      | Some mbv \<Rightarrow>
                          if voltage_sum < mbv - 1 / 2
                          then Return (s3\<lparr>max_voltage_start_time := None\<rparr>)
                          else Return s3))"

text \<open>Lines 487-507: the local \<open>control_voltage\<close> after the I-controller (\<open>0\<close>, its
  initial value, when the I-controller is off).\<close>

definition icontroller :: "utils \<Rightarrow> battery \<Rightarrow> exc + rat" where
  "icontroller u s =
     (if \<not> CVL_ICONTROLLER_MODE u then Inr 0
      else
        case (if truthy (control_voltage s) then
                (case get_max_cell_voltage s of
                   None \<Rightarrow> Inl TypeError
                 | Some mx \<Rightarrow>
                     Inr (Some (the (control_voltage s)
                            - (mx
                               - (if soc_reset_requested s then SOC_RESET_VOLTAGE u
                                  else MAX_CELL_VOLTAGE u)
                               - CELL_VOLTAGE_DIFF_KEEP_MAX_VOLTAGE_UNTIL u)
                              * CVL_ICONTROLLER_FACTOR u)))
              else Inr (max_battery_voltage s)) of
          Inl e \<Rightarrow> Inl e
        | Inr cv \<Rightarrow>
            (case (cv, min_battery_voltage s, max_battery_voltage s) of
               (Some c, Some lo, Some hi) \<Rightarrow> Inr (min (max c lo) hi)
             | _ \<Rightarrow> Inl TypeError))"

text \<open>The mode label of the two branches with \<open>allow_max_voltage\<close>.\<close>

definition soc_reset_tag :: "battery \<Rightarrow> string" where
  "soc_reset_tag s =
     (if max_battery_voltage s = soc_reset_battery_voltage s then '' & SoC Reset'' else [])"

text \<open>Lines 550-584: the Float regime.\<close>

definition float_regime :: "utils \<Rightarrow> int \<Rightarrow> int \<Rightarrow> battery \<Rightarrow> outcome" where
  "float_regime u current_time set_time s =
     (case cell_count s of
        None \<Rightarrow> Raise TypeError s
      | Some n \<Rightarrow>
          let floatVoltage = py_round (FLOAT_CELL_VOLTAGE u * of_int n) 3;
              s1 = (if soc_reset_requested s
                    then s\<lparr>soc_reset_requested := False, soc_reset_last_reached := current_time\<rparr>
                    else s)
          in if truthy (control_voltage s1) then
               (case charge_mode s1 of
                  None \<Rightarrow> Raise AttributeError s1
                | Some mode \<Rightarrow>
                    if \<not> prefix ''Float'' mode then
                      Return (s1\<lparr>transition_start_time := Some current_time,
                                 initial_control_voltage := control_voltage s1,
                                 charge_mode := Some ''Float Transition''\<rparr>)
                    else if prefix ''Float Transition'' mode then
                      (case transition_start_time s1 of
                         None \<Rightarrow> Raise TypeError s1
                       | Some t0 \<Rightarrow>
                           (case initial_control_voltage s1 of
                              None \<Rightarrow> Raise AttributeError s1
                            | Some icv \<Rightarrow>
                                let elapsed_time = current_time - t0;
                                    voltage_reduction =
                                      min (of_int elapsed_time / 1000) (icv - floatVoltage);
                                    s2 = snd (set_cvl_linear u set_time (icv - voltage_reduction) s1)
                                in if the (control_voltage s2) \<le> floatVoltage
                                   then Return (s2\<lparr>control_voltage := Some floatVoltage,
                                                   charge_mode := Some ''Float''\<rparr>)
                                   else Return (s2\<lparr>charge_mode := Some ''Float Transition''\<rparr>)))
                    else Return (s1\<lparr>charge_mode := Some ''Float''\<rparr>))
             else Return (s1\<lparr>control_voltage := Some floatVoltage, charge_mode := Some ''Float''\<rparr>))"

text \<open>Lines 511-584: the three regimes.\<close>

definition emit_cvl ::
  "utils \<Rightarrow> int \<Rightarrow> int \<Rightarrow> rat \<Rightarrow> rat \<Rightarrow> bool \<Rightarrow> rat \<Rightarrow> battery \<Rightarrow> outcome" where
  "emit_cvl u current_time set_time voltage_sum penalty_sum found_high_cell_voltage cv_local s =
     (if found_high_cell_voltage \<and> allow_max_voltage s then
        (case (min_battery_voltage s, max_battery_voltage s) of
           (Some lo, Some hi) \<Rightarrow>
             let control_voltage_new = py_round (min (max (voltage_sum - penalty_sum) lo) hi) 3;
                 s1 = (if CVL_ICONTROLLER_MODE u
                       then s\<lparr>control_voltage := Some control_voltage_new\<rparr>
                       else snd (set_cvl_linear u set_time control_voltage_new s))
             in Return (s1\<lparr>charge_mode :=
                  Some ((if max_voltage_start_time s1 = None then ''Bulk dynamic''
                         else ''Absorption dynamic'') @ soc_reset_tag s1)\<rparr>)
         | _ \<Rightarrow> Raise TypeError s)
      else if allow_max_voltage s then
        (case (if CVL_ICONTROLLER_MODE u then Some cv_local
               else map_option (\<lambda>hi. py_round hi 3) (max_battery_voltage s)) of
           None \<Rightarrow> Raise TypeError s
         | Some v \<Rightarrow>
             Return (s\<lparr>control_voltage := Some v,
                       charge_mode :=
                         Some ((if max_voltage_start_time s = None then ''Bulk''
                                else ''Absorption'') @ soc_reset_tag s)\<rparr>))
      else float_regime u current_time set_time s)"

text \<open>Lines 586-661: the suffixes of the label, and the one expression of the debug block
  that can raise, \<open>round(self.control_voltage, 2)\<close>.\<close>

definition mode_suffix :: "utils \<Rightarrow> rat \<Rightarrow> battery \<Rightarrow> outcome" where
  "mode_suffix u voltageDiff s =
     (case (if allow_max_voltage s then get_balancing s else Inr False) of
        Inl e \<Rightarrow> Raise e s
      | Inr balancing \<Rightarrow>
          let s1 = s\<lparr>charge_mode :=
                       Some (the (charge_mode s)
                             @ (if allow_max_voltage s \<and> balancing
                                   \<and> CELL_VOLTAGE_DIFF_TO_RESET_VOLTAGE_LIMIT u \<le> voltageDiff
                                then '' + Balancing'' else [])
                             @ '' (Linear Mode)'')\<rparr>
          in if LOG_DEBUG u \<and> control_voltage s1 = None then Raise TypeError s1 else Return s1)"

text \<open>The body of the \<open>try\<close>. \<open>current_time\<close> is \<open>int(time())\<close> read on entry.\<close>

definition manage_charge_voltage_linear_try :: "utils \<Rightarrow> int \<Rightarrow> int \<Rightarrow> battery \<Rightarrow> outcome" where
  "manage_charge_voltage_linear_try u current_time set_time s =
     (case cell_count s of
        None \<Rightarrow> Raise TypeError s
      | Some n \<Rightarrow>
          (case scan_cells u s [0 ..< nat n] (0, 0, False) of
             Inl e \<Rightarrow> Raise e s
           | Inr (voltage_sum, penalty_sum, found_high_cell_voltage) \<Rightarrow>
               (case (get_max_cell_voltage s, get_min_cell_voltage s) of
                  (Some mx, Some mn) \<Rightarrow>
                    and_then (absorption_timer u current_time voltage_sum (mx - mn) s) (\<lambda>s1.
                      case icontroller u s1 of
                        Inl e \<Rightarrow> Raise e s1
                      | Inr cv_local \<Rightarrow>
                          and_then
                            (emit_cvl u current_time set_time voltage_sum penalty_sum
                               found_high_cell_voltage cv_local s1)
                            (mode_suffix u (mx - mn)))
                | _ \<Rightarrow> Raise TypeError s)))"

text \<open>\<open>except TypeError\<close>: any other exception propagates.\<close>

definition manage_charge_voltage_linear :: "utils \<Rightarrow> int \<Rightarrow> int \<Rightarrow> battery \<Rightarrow> outcome" where
  "manage_charge_voltage_linear u current_time set_time s =
     (case manage_charge_voltage_linear_try u current_time set_time s of
        Raise TypeError s' \<Rightarrow> Return (s'\<lparr>control_voltage := None, charge_mode := Some ''--''\<rparr>)
      | r \<Rightarrow> r)"

subsection \<open>Current derating\<close>

definition derate ::
  "utils \<Rightarrow> rat option \<Rightarrow> rat list \<Rightarrow> rat list \<Rightarrow> bool \<Rightarrow> exc + rat" where
  "derate u x xs ys ascending =
     (if LINEAR_LIMITATION_ENABLE u then calcLinearRelationship u x xs ys
      else calcStepRelationship u x xs ys ascending)"

text \<open>The four methods with \<open>try ... except Exception\<close>: the handler logs and returns a
  default.\<close>

definition calcMaxChargeCurrentReferringToCellVoltage :: "utils \<Rightarrow> battery \<Rightarrow> rat option" where
  "calcMaxChargeCurrentReferringToCellVoltage u s =
     (case derate u (get_max_cell_voltage s) (CELL_VOLTAGES_WHILE_CHARGING u)
             (MAX_CHARGE_CURRENT_CV u) False of
        Inr v \<Rightarrow> Some v
      | Inl e \<Rightarrow> max_battery_charge_current s)"

definition calcMaxDischargeCurrentReferringToCellVoltage :: "utils \<Rightarrow> battery \<Rightarrow> rat option" where
  "calcMaxDischargeCurrentReferringToCellVoltage u s =
     (case derate u (get_min_cell_voltage s) (CELL_VOLTAGES_WHILE_DISCHARGING u)
             (MAX_DISCHARGE_CURRENT_CV u) True of
        Inr v \<Rightarrow> Some v
      | Inl e \<Rightarrow> max_battery_charge_current s)"

definition calcMaxChargeCurrentReferringToSoc :: "utils \<Rightarrow> battery \<Rightarrow> rat option" where
  "calcMaxChargeCurrentReferringToSoc u s =
     (case derate u (soc_calc s) (SOC_WHILE_CHARGING u) (MAX_CHARGE_CURRENT_SOC u) True of
        Inr v \<Rightarrow> Some v
      | Inl e \<Rightarrow> max_battery_charge_current s)"

definition calcMaxDischargeCurrentReferringToSoc :: "utils \<Rightarrow> battery \<Rightarrow> rat option" where
  "calcMaxDischargeCurrentReferringToSoc u s =
     (case derate u (soc_calc s) (SOC_WHILE_DISCHARGING u) (MAX_DISCHARGE_CURRENT_SOC u) True of
        Inr v \<Rightarrow> Some v
      | Inl e \<Rightarrow> max_battery_discharge_current s)"

text \<open>The two temperature methods have no handler.\<close>

definition calcMaxChargeCurrentReferringToTemperature :: "utils \<Rightarrow> battery \<Rightarrow> exc + rat option" where
  "calcMaxChargeCurrentReferringToTemperature u s =
     (case get_max_temp s of
        None \<Rightarrow> Inr (max_battery_charge_current s)
      | Some _ \<Rightarrow>
          (case derate u (get_max_temp s) (TEMPERATURES_WHILE_CHARGING u)
                  (MAX_CHARGE_CURRENT_T u) False of
             Inl e \<Rightarrow> Inl e
           | Inr a \<Rightarrow>
               (case derate u (get_min_temp s) (TEMPERATURES_WHILE_CHARGING u)
                       (MAX_CHARGE_CURRENT_T u) False of
                  Inl e \<Rightarrow> Inl e
                | Inr b \<Rightarrow> Inr (Some (min a b)))))"

definition calcMaxDischargeCurrentReferringToTemperature :: "utils \<Rightarrow> battery \<Rightarrow> exc + rat option" where
  "calcMaxDischargeCurrentReferringToTemperature u s =
     (case get_max_temp s of
        None \<Rightarrow> Inr (max_battery_discharge_current s)
      | Some _ \<Rightarrow>
          (case derate u (get_max_temp s) (TEMPERATURES_WHILE_DISCHARGING u)
                  (MAX_DISCHARGE_CURRENT_T u) True of
             Inl e \<Rightarrow> Inl e
           | Inr a \<Rightarrow>
               (case derate u (get_min_temp s) (TEMPERATURES_WHILE_DISCHARGING u)
                       (MAX_DISCHARGE_CURRENT_T u) True of
                  Inl e \<Rightarrow> Inl e
                | Inr b \<Rightarrow> Inr (Some (min a b)))))"

subsection \<open>manage_charge_current\<close>

text \<open>
  The dictionaries \<open>charge_limits\<close> and \<open>discharge_limits\<close> map a limit to the name of its
  rule; they are association lists in insertion order. A key is an optional number, since
  a derating method may hand back a missing BMS limit.
\<close>

type_synonym limits = "(rat option \<times> string) list"

text \<open>The block repeated for each derating rule: \<open>global_name\<close> is the label of the
  configured ceiling, \<open>bms_max\<close> the limit read from the BMS.\<close>

definition add_limit :: "string \<Rightarrow> rat option \<Rightarrow> rat option \<Rightarrow> string \<Rightarrow> limits \<Rightarrow> limits" where
  "add_limit global_name bms_max tmp name lims =
     (if bms_max \<noteq> tmp then
        (case map_of lims tmp of
           Some label \<Rightarrow>
             if label \<noteq> global_name then AList.update tmp (label @ '', '' @ name) lims else lims
         | None \<Rightarrow> AList.update tmp name lims)
      else lims)"

text \<open>The hard zero of a closed FET or a disconnect.\<close>

definition add_bms_zero :: "limits \<Rightarrow> limits" where
  "add_bms_zero lims =
     (case map_of lims (Some 0) of
        Some label \<Rightarrow> AList.update (Some 0) (label @ '', BMS'') lims
      | None \<Rightarrow> AList.update (Some 0) ''BMS'' lims)"

text \<open>\<open>min\<close> over the keys of a dictionary: comparing \<open>None\<close> with a number raises.\<close>

definition min_key :: "limits \<Rightarrow> exc + rat option" where
  "min_key lims =
     (case map fst lims of
        [] \<Rightarrow> Inl ValueError
      | [k] \<Rightarrow> Inr k
      | k # ks \<Rightarrow>
          if None \<in> set (k # ks) then Inl TypeError
          else Inr (Some (fold min (map the ks) (the k))))"

definition charge_limits :: "utils \<Rightarrow> battery \<Rightarrow> exc + limits" where
  "charge_limits u s =
     (let g = ''Max Battery Charge Current'';
          l0 = [(Some (MAX_BATTERY_CHARGE_CURRENT u), g)];
          l1 = (case max_battery_charge_current s of
                  Some m \<Rightarrow> if m < MAX_BATTERY_CHARGE_CURRENT u
                            then AList.update (Some m) ''BMS Settings'' l0 else l0
                | None \<Rightarrow> l0);
          l2 = (if CCCM_CV_ENABLE u
                then add_limit g (max_battery_charge_current s)
                       (calcMaxChargeCurrentReferringToCellVoltage u s) ''Cell Voltage'' l1
                else l1)
      in case (if CCCM_T_ENABLE u
               then (case calcMaxChargeCurrentReferringToTemperature u s of
                       Inl e \<Rightarrow> Inl e
                     | Inr tmp \<Rightarrow> Inr (add_limit g (max_battery_charge_current s) tmp ''Temp'' l2))
               else Inr l2) of
           Inl e \<Rightarrow> Inl e
         | Inr l3 \<Rightarrow>
             let l4 = (if CCCM_SOC_ENABLE u
                       then add_limit g (max_battery_charge_current s)
                              (calcMaxChargeCurrentReferringToSoc u s) ''SoC'' l3
                       else l3)
             in Inr (if charge_fet s = Some False \<or> block_because_disconnect s
                     then add_bms_zero l4 else l4))"

definition discharge_limits :: "utils \<Rightarrow> battery \<Rightarrow> exc + limits" where
  "discharge_limits u s =
     (let g = ''Max Battery Discharge Current'';
          l0 = [(Some (MAX_BATTERY_DISCHARGE_CURRENT u), g)];
          l1 = (case max_battery_discharge_current s of
                  Some m \<Rightarrow> if m < MAX_BATTERY_DISCHARGE_CURRENT u
                            then AList.update (Some m) ''BMS Settings'' l0 else l0
                | None \<Rightarrow> l0);
          l2 = (if DCCM_CV_ENABLE u
                then add_limit g (max_battery_discharge_current s)
                       (calcMaxDischargeCurrentReferringToCellVoltage u s) ''Cell Voltage'' l1
                else l1)
      in case (if DCCM_T_ENABLE u
               then (case calcMaxDischargeCurrentReferringToTemperature u s of
                       Inl e \<Rightarrow> Inl e
                     | Inr tmp \<Rightarrow> Inr (add_limit g (max_battery_discharge_current s) tmp ''Temp'' l2))
               else Inr l2) of
           Inl e \<Rightarrow> Inl e
         | Inr l3 \<Rightarrow>
             let l4 = (if DCCM_SOC_ENABLE u
                       then add_limit g (max_battery_discharge_current s)
                              (calcMaxDischargeCurrentReferringToSoc u s) ''SoC'' l3
                       else l3)
             in Inr (if discharge_fet s = Some False \<or> block_because_disconnect s
                     then add_bms_zero l4 else l4))"

text \<open>\<open>ccl = round(min(charge_limits), 3)\<close>, with the key it came from.\<close>

definition rounded_min :: "limits \<Rightarrow> exc + rat \<times> rat" where
  "rounded_min lims =
     (case min_key lims of
        Inl e \<Rightarrow> Inl e
      | Inr None \<Rightarrow> Inl TypeError
      | Inr (Some m) \<Rightarrow> Inr (m, py_round m 3))"

text \<open>The commit test of lines 813-827 (and 907-921): \<open>previous\<close> is the limit committed
  before, \<open>elapsed\<close> the seconds since the last commit. \<open>None * x\<close> raises, but only when
  the two tests before it fail.\<close>

definition commit_test :: "utils \<Rightarrow> rat option \<Rightarrow> int \<Rightarrow> rat \<Rightarrow> exc + bool" where
  "commit_test u previous elapsed lims =
     (let diff = (case previous of Some c \<Rightarrow> \<bar>c - lims\<bar> | None \<Rightarrow> 0)
      in if LINEAR_RECALCULATION_EVERY u \<le> of_int elapsed \<or> lims = 0 then Inr True
         else (case previous of
                 None \<Rightarrow> Inl TypeError
               | Some c \<Rightarrow> Inr (c * LINEAR_RECALCULATION_ON_PERC_CHANGE u / 100 \<le> diff)))"

text \<open>Lines 752-838. \<open>check_time\<close> and \<open>set_time\<close> are the two readings of
  \<open>int(time())\<close>.\<close>

definition manage_charge_current_ccl :: "utils \<Rightarrow> int \<Rightarrow> int \<Rightarrow> battery \<Rightarrow> outcome" where
  "manage_charge_current_ccl u check_time set_time s =
     (case charge_limits u s of
        Inl e \<Rightarrow> Raise e s
      | Inr lims \<Rightarrow>
          (case rounded_min lims of
             Inl e \<Rightarrow> Raise e s
           | Inr (m, ccl) \<Rightarrow>
               (case commit_test u (control_charge_current s)
                       (check_time - linear_ccl_last_set s) ccl of
                  Inl e \<Rightarrow> Raise e s
                | Inr commit \<Rightarrow>
                    let s1 = (if commit
                              then s\<lparr>linear_ccl_last_set := set_time,
                                     control_charge_current := Some ccl,
                                     charge_limitation := map_of lims (Some m)\<rparr>
                              else s)
                    in Return (s1\<lparr>control_allow_charge :=
                                    Some (control_charge_current s1 \<noteq> Some 0)\<rparr>))))"

text \<open>Lines 840-932.\<close>

definition manage_charge_current_dcl :: "utils \<Rightarrow> int \<Rightarrow> int \<Rightarrow> battery \<Rightarrow> outcome" where
  "manage_charge_current_dcl u check_time set_time s =
     (case discharge_limits u s of
        Inl e \<Rightarrow> Raise e s
      | Inr lims \<Rightarrow>
          (case rounded_min lims of
             Inl e \<Rightarrow> Raise e s
           | Inr (m, dcl) \<Rightarrow>
               (case commit_test u (control_discharge_current s)
                       (check_time - linear_dcl_last_set s) dcl of
                  Inl e \<Rightarrow> Raise e s
                | Inr commit \<Rightarrow>
                    let s1 = (if commit
                              then s\<lparr>linear_dcl_last_set := set_time,
                                     control_discharge_current := Some dcl,
                                     discharge_limitation := map_of lims (Some m)\<rparr>
                              else s)
                    in Return (s1\<lparr>control_allow_discharge :=
                                    Some (control_discharge_current s1 \<noteq> Some 0)\<rparr>))))"

definition manage_charge_current ::
  "utils \<Rightarrow> int \<Rightarrow> int \<Rightarrow> int \<Rightarrow> int \<Rightarrow> battery \<Rightarrow> outcome" where
  "manage_charge_current u ccl_check_time ccl_set_time dcl_check_time dcl_set_time s =
     and_then (manage_charge_current_ccl u ccl_check_time ccl_set_time s)
       (manage_charge_current_dcl u dcl_check_time dcl_set_time)"

subsection \<open>The constructor\<close>

text \<open>\<open>Battery.__init__\<close>: the static fields, then \<open>init_values\<close>. The address is not
  stored. The record literal needs a value for the fields that \<open>init_values\<close> assigns
  next; it overwrites them.\<close>

definition Battery :: "string \<Rightarrow> int \<Rightarrow> string \<Rightarrow> battery" where
  "Battery port_name baud address = init_values
     \<lparr>port = port_name, baud_rate = baud, role = ''battery'', battery_type = ''Generic'',
      poll_interval = 1000, online = True, hardware_version = None, cell_count = None,
      max_battery_charge_current = None, max_battery_discharge_current = None,
      has_settings = False,
      soc_calc_capacity_remain = None, soc_calc_capacity_remain_lasttime = None,
      soc_calc_reset_starttime = None, soc_calc = None, soc = None,
      charge_fet = None, discharge_fet = None, balance_fet = None,
      block_because_disconnect = False,
      control_charge_current = None, control_discharge_current = None,
      control_allow_charge = None, control_allow_discharge = None, custom_field = None,
      voltage = None, current = None, current_avg = None, current_avg_lst = [],
      current_corrected = None, capacity_remain = None, capacity = None, cycles = None,
      total_ah_drawn = None, production = None, protection = Protection, version = None,
      time_to_soc_update = 0, temp_sensors = None, temp1 = None, temp2 = None, temp3 = None,
      temp4 = None, temp_mos = None, cells = [], control_voltage = None,
      soc_reset_requested = False, soc_reset_last_reached = 0,
      soc_reset_battery_voltage = None, max_battery_voltage = None,
      min_battery_voltage = None, allow_max_voltage = True, max_voltage_start_time = None,
      transition_start_time = None, charge_mode = None, charge_limitation = None,
      discharge_limitation = None, linear_cvl_last_set = 0, linear_ccl_last_set = 0,
      linear_dcl_last_set = 0, available_callbacks = [],
      initial_control_voltage = None, cell_min_voltage = None, cell_max_voltage = None\<rparr>"

text \<open>\<open>Cell(balance)\<close> with a voltage read from the BMS.\<close>

definition Cell :: "rat \<Rightarrow> cell" where
  "Cell v = \<lparr>cell_voltage = Some v, balance = Some False, temp = None\<rparr>"

subsection \<open>The quantities the specification names\<close>

text \<open>The cells the loops over \<open>range(self.cell_count)\<close> read: the first
  \<open>min(len(self.cells), self.cell_count)\<close>.\<close>

definition counted_cells :: "battery \<Rightarrow> cell list" where
  "counted_cells s = take (nat (the (cell_count s))) (cells s)"

text \<open>The pack voltage sum: the sum of the voltages of the counted cells.\<close>

definition pack_voltage_sum :: "battery \<Rightarrow> rat" where
  "pack_voltage_sum s =
     sum_list (map (\<lambda>c. case cell_voltage c of None \<Rightarrow> 0 | Some v \<Rightarrow> v) (counted_cells s))"

text \<open>The active per-cell ceiling: \<open>SOC_RESET_VOLTAGE\<close> during the SoC-reset excursion,
  \<open>MAX_CELL_VOLTAGE\<close> otherwise.\<close>

definition active_ceiling :: "utils \<Rightarrow> battery \<Rightarrow> rat" where
  "active_ceiling u s =
     (if max_battery_voltage s = soc_reset_battery_voltage s then SOC_RESET_VOLTAGE u
      else MAX_CELL_VOLTAGE u)"

text \<open>A cell is above the ceiling when its voltage is known, not \<open>0\<close>, and larger.\<close>

definition above_ceiling :: "utils \<Rightarrow> battery \<Rightarrow> cell \<Rightarrow> bool" where
  "above_ceiling u s c =
     (case cell_voltage c of None \<Rightarrow> False | Some v \<Rightarrow> v \<noteq> 0 \<and> active_ceiling u s < v)"

text \<open>The penalty sum: the total overshoot of the counted cells above the ceiling.\<close>

definition penalty_total :: "utils \<Rightarrow> battery \<Rightarrow> rat" where
  "penalty_total u s =
     sum_list (map (\<lambda>c. the (cell_voltage c) - active_ceiling u s)
                 (filter (above_ceiling u s) (counted_cells s)))"

definition clamp :: "rat \<Rightarrow> rat \<Rightarrow> rat \<Rightarrow> rat" where
  "clamp x lo hi = min (max x lo) hi"

text \<open>A derating candidate is non-negative when it is a number that is at least \<open>0\<close>; a
  missing candidate only comes from a missing BMS limit, which the limiter skips.\<close>

definition candidate_nonneg :: "rat option \<Rightarrow> rat option \<Rightarrow> bool" where
  "candidate_nonneg bms_max tmp =
     (case tmp of Some v \<Rightarrow> 0 \<le> v | None \<Rightarrow> bms_max = None)"

definition charge_candidates_nonneg :: "utils \<Rightarrow> battery \<Rightarrow> bool" where
  "charge_candidates_nonneg u s =
     (0 \<le> MAX_BATTERY_CHARGE_CURRENT u
      \<and> candidate_nonneg None (max_battery_charge_current s)
      \<and> (CCCM_CV_ENABLE u \<longrightarrow>
           candidate_nonneg (max_battery_charge_current s)
             (calcMaxChargeCurrentReferringToCellVoltage u s))
      \<and> (CCCM_T_ENABLE u \<longrightarrow>
           (case calcMaxChargeCurrentReferringToTemperature u s of
              Inl e \<Rightarrow> False
            | Inr tmp \<Rightarrow> candidate_nonneg (max_battery_charge_current s) tmp))
      \<and> (CCCM_SOC_ENABLE u \<longrightarrow>
           candidate_nonneg (max_battery_charge_current s)
             (calcMaxChargeCurrentReferringToSoc u s)))"

definition discharge_candidates_nonneg :: "utils \<Rightarrow> battery \<Rightarrow> bool" where
  "discharge_candidates_nonneg u s =
     (0 \<le> MAX_BATTERY_DISCHARGE_CURRENT u
      \<and> candidate_nonneg None (max_battery_discharge_current s)
      \<and> (DCCM_CV_ENABLE u \<longrightarrow>
           candidate_nonneg (max_battery_discharge_current s)
             (calcMaxDischargeCurrentReferringToCellVoltage u s))
      \<and> (DCCM_T_ENABLE u \<longrightarrow>
           (case calcMaxDischargeCurrentReferringToTemperature u s of
              Inl e \<Rightarrow> False
            | Inr tmp \<Rightarrow> candidate_nonneg (max_battery_discharge_current s) tmp))
      \<and> (DCCM_SOC_ENABLE u \<longrightarrow>
           candidate_nonneg (max_battery_discharge_current s)
             (calcMaxDischargeCurrentReferringToSoc u s)))"

subsection \<open>A configuration and a pack to run the engine on\<close>

text \<open>
  Modelled from the spec: \<open>utils.calcLinearRelationship\<close>, which is not among the sources.
  The specification (4.2): clamp \<open>x\<close> to \<open>[min(X), max(X)]\<close>, find the bracketing segment
  \<open>(x\<^sub>i, x\<^sub>i\<^sub>+\<^sub>1)\<close> and return \<open>y\<^sub>i + (x - x\<^sub>i)(y\<^sub>i\<^sub>+\<^sub>1 - y\<^sub>i)/(x\<^sub>i\<^sub>+\<^sub>1 - x\<^sub>i)\<close>. A missing input
  raises, as arithmetic on \<open>None\<close> does.
\<close>

fun bracket :: "rat \<Rightarrow> rat list \<Rightarrow> rat list \<Rightarrow> exc + rat" where
  "bracket x (x0 # x1 # xs) (y0 # y1 # ys) =
     (if min x0 x1 \<le> x \<and> x \<le> max x0 x1 then
        (if x1 = x0 then Inr y0 else Inr (y0 + (x - x0) * (y1 - y0) / (x1 - x0)))
      else bracket x (x1 # xs) (y1 # ys))"
| "bracket x xs ys = Inl IndexError"

definition linear_relationship :: "rat option \<Rightarrow> rat list \<Rightarrow> rat list \<Rightarrow> exc + rat" where
  "linear_relationship x xs ys =
     (case x of
        None \<Rightarrow> Inl TypeError
      | Some v \<Rightarrow>
          (case xs of
             [] \<Rightarrow> Inl IndexError
           | x0 # rest \<Rightarrow> bracket (min (max v (fold min rest x0)) (fold max rest x0)) xs ys))"

text \<open>
  The configuration of the specification's scenarios (section 8): four cells,
  \<open>MAX_CELL_VOLTAGE = 3.45\<close>, \<open>FLOAT_CELL_VOLTAGE = 3.375\<close>, \<open>MIN_CELL_VOLTAGE = 2.9\<close>,
  \<open>MAX_VOLTAGE_TIME_SEC = 900\<close>, \<open>SOC_RESET_CURRENT = 5\<close>, \<open>VOLTAGE_DROP = 0.1\<close>; linear
  mode, I-controller off. The step helper is not used in linear mode.
\<close>

definition scenario_utils :: utils where
  "scenario_utils =
     \<lparr>MIN_CELL_VOLTAGE = 29 / 10, MAX_CELL_VOLTAGE = 345 / 100,
      FLOAT_CELL_VOLTAGE = 3375 / 1000, SOC_RESET_VOLTAGE = 365 / 100,
      SOC_RESET_CURRENT = 5, SOC_RESET_TIME = 60, VOLTAGE_DROP = 1 / 10,
      SOC_CALC_CURRENT_REPORTED_BY_BMS = [-300, 300],
      SOC_CALC_CURRENT_MEASURED_BY_USER = [-300, 300],
      CELL_VOLTAGE_DIFF_KEEP_MAX_VOLTAGE_UNTIL = 1 / 100,
      CELL_VOLTAGE_DIFF_KEEP_MAX_VOLTAGE_TIME_RESTART = 13 / 1000,
      CELL_VOLTAGE_DIFF_TO_RESET_VOLTAGE_LIMIT = 8 / 100,
      SOC_LEVEL_TO_RESET_VOLTAGE_LIMIT = 80, MAX_VOLTAGE_TIME_SEC = 900,
      CVL_ICONTROLLER_MODE = False, CVL_ICONTROLLER_FACTOR = 2 / 10,
      LINEAR_LIMITATION_ENABLE = True, LINEAR_RECALCULATION_EVERY = 60,
      LINEAR_RECALCULATION_ON_PERC_CHANGE = 5,
      MAX_BATTERY_CHARGE_CURRENT = 100, MAX_BATTERY_DISCHARGE_CURRENT = 120,
      CCCM_CV_ENABLE = True, CCCM_T_ENABLE = True, CCCM_SOC_ENABLE = True,
      DCCM_CV_ENABLE = True, DCCM_T_ENABLE = True, DCCM_SOC_ENABLE = True,
      CELL_VOLTAGES_WHILE_CHARGING = [355 / 100, 350 / 100, 345 / 100, 330 / 100],
      MAX_CHARGE_CURRENT_CV = [0, 5, 50, 100],
      CELL_VOLTAGES_WHILE_DISCHARGING = [29 / 10, 3, 31 / 10, 32 / 10],
      MAX_DISCHARGE_CURRENT_CV = [0, 6, 60, 120],
      TEMPERATURES_WHILE_CHARGING = [0, 15, 45, 55],
      MAX_CHARGE_CURRENT_T = [50, 100, 50, 0],
      TEMPERATURES_WHILE_DISCHARGING = [-20, 0, 45, 55],
      MAX_DISCHARGE_CURRENT_T = [0, 120, 120, 0],
      SOC_WHILE_CHARGING = [100, 98, 95],
      MAX_CHARGE_CURRENT_SOC = [10, 50, 100],
      SOC_WHILE_DISCHARGING = [5, 10, 20],
      MAX_DISCHARGE_CURRENT_SOC = [0, 60, 120],
      calcLinearRelationship = linear_relationship,
      calcStepRelationship = (\<lambda>x xs ys ascending. Inl ValueError),
      LOG_DEBUG = False\<rparr>"

text \<open>A connected pack of that configuration after \<open>get_settings\<close>, a first
  \<open>refresh_data\<close> and \<open>prepare_voltage_management\<close>: the given cell voltages, 100 Ah, 25
  degrees, FETs closed, pack limits \<open>4 * 2.9 = 11.6\<close> and \<open>4 * 3.45 = 13.8\<close> volts.\<close>

definition scenario_pack :: "rat list \<Rightarrow> rat \<Rightarrow> battery" where
  "scenario_pack vs amps =
     (Battery ''/dev/ttyUSB0'' 115200 [])
       \<lparr>cell_count := Some 4, max_battery_charge_current := Some 100,
        max_battery_discharge_current := Some 120, soc := Some 90,
        charge_fet := Some True, discharge_fet := Some True, balance_fet := Some True,
        voltage := Some (sum_list vs), current := Some amps, capacity := Some 100,
        temp1 := Some 25, cells := map Cell vs,
        soc_reset_battery_voltage := Some (146 / 10),
        max_battery_voltage := Some (138 / 10), min_battery_voltage := Some (116 / 10)\<rparr>"

text \<open>Every key of a limits dictionary is a number that is at least \<open>0\<close>.\<close>

definition nonneg_keys :: "limits \<Rightarrow> bool" where
  "nonneg_keys l = (\<forall>k \<in> fst ` set l. \<exists>v. k = Some v \<and> 0 \<le> v)"

text \<open>The scenario pack at 90 % after a transport disconnect has latched
  \<open>block_because_disconnect\<close>; 50 A and 120 A were committed before.\<close>

definition disconnected_pack :: battery where
  "disconnected_pack =
     (scenario_pack [343 / 100, 344 / 100, 344 / 100, 344 / 100] 1)
       \<lparr>soc_calc := Some 90, block_because_disconnect := True,
        control_charge_current := Some 50, control_discharge_current := Some 120\<rparr>"

text \<open>The scenario pack with one cell just below 3.5 V, ten seconds after 5 A was
  committed as the charge limit.\<close>

definition throttled_pack :: battery where
  "throttled_pack =
     (scenario_pack [34999 / 10000, 344 / 100, 344 / 100, 344 / 100] 1)
       \<lparr>soc_calc := Some 90, control_charge_current := Some 5,
        charge_limitation := Some ''Cell Voltage'', linear_ccl_last_set := 990\<rparr>"

text \<open>The accumulator lies between \<open>0\<close> and the capacity \<open>cap\<close>.\<close>

definition remain_in_range :: "rat \<Rightarrow> battery \<Rightarrow> bool" where
  "remain_in_range cap s =
     (capacity s = Some cap
      \<and> soc_calc_capacity_remain s \<noteq> None
      \<and> 0 \<le> the (soc_calc_capacity_remain s) \<and> the (soc_calc_capacity_remain s) \<le> cap)"

text \<open>The percentage the first tick seeds the accumulator from (\<open>soc_calc\<close> when it
  is known, else the BMS-reported \<open>soc\<close> when that is known) lies in \<open>[0, 100]\<close>.\<close>

definition seed_in_range :: "battery \<Rightarrow> bool" where
  "seed_in_range s =
     (case soc_calc s of
        None \<Rightarrow> (case soc s of None \<Rightarrow> True | Some p \<Rightarrow> 0 \<le> p \<and> p \<le> 100)
      | Some p \<Rightarrow> 0 \<le> p \<and> p \<le> 100)"

text \<open>A full pack under a 50 A discharge, 101 seconds into the dwell.\<close>

definition discharging_full_pack :: battery where
  "discharging_full_pack =
     (scenario_pack [345 / 100, 345 / 100, 345 / 100, 345 / 100] (- 50))
       \<lparr>soc_calc_capacity_remain := Some 92, soc_calc_capacity_remain_lasttime := Some 1000,
        soc_calc_reset_starttime := Some 900, soc_calc := Some 92\<rparr>"

text \<open>Scenario E of the specification: 92 Ah counted, lowest cell at 3.43 V, 1 A, pack
  sum 13.78 V, 70 seconds into the dwell.\<close>

definition resting_full_pack :: battery where
  "resting_full_pack =
     (scenario_pack [343 / 100, 345 / 100, 345 / 100, 345 / 100] 1)
       \<lparr>soc_calc_capacity_remain := Some 92, soc_calc_capacity_remain_lasttime := Some 940,
        soc_calc_reset_starttime := Some 930, soc_calc := Some 92\<rparr>"

text \<open>A pack on its first tick whose BMS reports a state of charge of 150 %.\<close>

definition overreporting_pack :: battery where
  "overreporting_pack =
     (scenario_pack [330 / 100, 330 / 100, 330 / 100, 330 / 100] 1)\<lparr>soc := Some 150\<rparr>"

text \<open>What \<open>get_cell_voltage\<close> hands back for index \<open>i\<close> when the cell count is \<open>n\<close>.\<close>

definition read_cell :: "battery \<Rightarrow> int \<Rightarrow> nat \<Rightarrow> rat option" where
  "read_cell s n i =
     (if min (int (length (cells s))) n \<le> int i then None else cell_voltage (cells s ! i))"

text \<open>The contribution of a reading to the pack sum.\<close>

definition volt_of :: "rat option \<Rightarrow> rat" where
  "volt_of v = (case v of None \<Rightarrow> 0 | Some x \<Rightarrow> x)"

text \<open>A reading above the active ceiling.\<close>

definition high :: "utils \<Rightarrow> battery \<Rightarrow> rat option \<Rightarrow> bool" where
  "high u s v = (case v of None \<Rightarrow> False | Some x \<Rightarrow> x \<noteq> 0 \<and> active_ceiling u s < x)"

text \<open>The overshoot of a reading above the active ceiling.\<close>

definition over_of :: "utils \<Rightarrow> battery \<Rightarrow> rat option \<Rightarrow> rat" where
  "over_of u s v = (if high u s v then the v - active_ceiling u s else 0)"

text \<open>Scenario C of the specification: cells at 3.50, 3.44, 3.44 and 3.44 V, in Bulk.\<close>

definition penalty_pack :: battery where
  "penalty_pack =
     (scenario_pack [350 / 100, 344 / 100, 344 / 100, 344 / 100] 20)\<lparr>soc_calc := Some 90\<rparr>"

text \<open>The pack with the voltage of cell \<open>i\<close> changed to \<open>v\<close>, all else as it was.\<close>

definition set_cell_voltage :: "battery \<Rightarrow> nat \<Rightarrow> rat \<Rightarrow> battery" where
  "set_cell_voltage s i v = s\<lparr>cells := (cells s)[i := (cells s ! i)\<lparr>cell_voltage := Some v\<rparr>]\<rparr>"

text \<open>What a cell adds to \<open>voltage_sum - penalty_sum\<close>: its voltage, cut at the ceiling.\<close>

definition trimmed :: "utils \<Rightarrow> battery \<Rightarrow> cell \<Rightarrow> rat" where
  "trimmed u s c = volt_of (cell_voltage c) - over_of u s (cell_voltage c)"

text \<open>The scenario pack in Absorption for 100 seconds, first cell at 3.50 V.\<close>

definition absorbing_pack :: battery where
  "absorbing_pack =
     (scenario_pack [350 / 100, 344 / 100, 344 / 100, 344 / 100] 20)
       \<lparr>soc_calc := Some 95, max_voltage_start_time := Some 900\<rparr>"

text \<open>Scenario D of the specification: the pack in Float Transition since second 1000,
  CVL 13.80 V when the transition began, last CVL commit at second 940.\<close>

definition floating_pack :: battery where
  "floating_pack =
     (scenario_pack [340 / 100, 340 / 100, 340 / 100, 340 / 100] 0)
       \<lparr>soc_calc := Some 100, allow_max_voltage := False, control_voltage := Some (138 / 10),
        charge_mode := Some ''Float Transition (Linear Mode)'',
        transition_start_time := Some 1000, initial_control_voltage := Some (138 / 10),
        linear_cvl_last_set := 940\<rparr>"

text \<open>The scenario configuration with a float voltage of four decimals.\<close>

definition fine_float_utils :: utils where
  "fine_float_utils = scenario_utils\<lparr>FLOAT_CELL_VOLTAGE := 33751 / 10000\<rparr>"

section \<open>Properties\<close>

subsection \<open>Fields of the scenario pack\<close>

lemma scenario_pack_empty_fields:
  "cells (scenario_pack [] 0) = []"
  "cell_min_voltage (scenario_pack [] 0) = None"
  "max_battery_charge_current (scenario_pack [] 0) = Some 100"
  "max_battery_discharge_current (scenario_pack [] 0) = Some 120"
  unfolding scenario_pack_def Battery_def init_values_def by simp_all

subsection \<open>init_values\<close>

text \<open>
  C1 (as stated, refuted): \<open>init_values\<close> does not leave \<open>allow_max_voltage\<close> unchanged. A
  battery whose absorption phase has ended (\<open>allow_max_voltage = False\<close>) has it set
  back to \<open>True\<close>.
\<close>

theorem init_values_resets_counterexample:
  "allow_max_voltage
     (init_values ((Battery ''/dev/ttyUSB0'' 115200 [])\<lparr>allow_max_voltage := False\<rparr>))
   \<noteq> allow_max_voltage ((Battery ''/dev/ttyUSB0'' 115200 [])\<lparr>allow_max_voltage := False\<rparr>)"
  unfolding init_values_def by simp

text \<open>
  C1 (amended): \<open>init_values\<close> clears the telemetry and resets the derived state; of the
  four fields only \<open>soc_calc\<close> keeps its value, while \<open>soc_reset_last_reached\<close> is reset
  to \<open>0\<close>, \<open>allow_max_voltage\<close> to \<open>True\<close> and \<open>max_voltage_start_time\<close> to \<open>None\<close>.
\<close>

theorem init_values_frame:
  "soc_calc (init_values s) = soc_calc s
   \<and> soc_reset_last_reached (init_values s) = 0
   \<and> allow_max_voltage (init_values s) = True
   \<and> max_voltage_start_time (init_values s) = None
   \<and> voltage (init_values s) = None \<and> current (init_values s) = None
   \<and> capacity (init_values s) = None \<and> cells (init_values s) = []
   \<and> control_voltage (init_values s) = None \<and> charge_mode (init_values s) = None"
  unfolding init_values_def by simp

subsection \<open>Discharge derating on cell voltage\<close>

text \<open>
  C9: when the evaluation of the discharge cell-voltage derating raises, whatever the
  exception, \<open>calcMaxDischargeCurrentReferringToCellVoltage\<close> returns
  \<open>max_battery_charge_current\<close>, the charge-side default; the method itself never
  raises (its result is a plain value).
\<close>

theorem discharge_cell_voltage_derating_exception:
  assumes "derate u (get_min_cell_voltage s) (CELL_VOLTAGES_WHILE_DISCHARGING u)
             (MAX_DISCHARGE_CURRENT_CV u) True = Inl e"
  shows "calcMaxDischargeCurrentReferringToCellVoltage u s = max_battery_charge_current s"
  using assms by (simp add: calcMaxDischargeCurrentReferringToCellVoltage_def)

text \<open>A pack without cell voltages: the interpolation raises \<open>TypeError\<close>, and the
  method returns the charge limit 100 A although the discharge limit is 120 A.\<close>

theorem discharge_cell_voltage_derating_exception_witness:
  "derate scenario_utils (get_min_cell_voltage (scenario_pack [] 0))
     (CELL_VOLTAGES_WHILE_DISCHARGING scenario_utils)
     (MAX_DISCHARGE_CURRENT_CV scenario_utils) True = Inl TypeError
   \<and> calcMaxDischargeCurrentReferringToCellVoltage scenario_utils (scenario_pack [] 0) = Some 100
   \<and> max_battery_discharge_current (scenario_pack [] 0) = Some 120"
proof -
  have m: "get_min_cell_voltage (scenario_pack [] 0) = None"
    by (simp add: get_min_cell_voltage_def known_voltages_def scenario_pack_empty_fields
        List.map_filter_simps)
  have h: "derate scenario_utils (get_min_cell_voltage (scenario_pack [] 0))
     (CELL_VOLTAGES_WHILE_DISCHARGING scenario_utils)
     (MAX_DISCHARGE_CURRENT_CV scenario_utils) True = Inl TypeError"
    unfolding m by (simp add: derate_def scenario_utils_def linear_relationship_def)
  from discharge_cell_voltage_derating_exception [OF h] h show ?thesis
    by (simp add: scenario_pack_empty_fields)
qed

subsection \<open>validate_data\<close>

text \<open>
  C10: \<open>validate_data\<close> returns \<open>True\<close> whenever each of capacity, current, voltage and soc
  is \<open>None\<close> or within its bound; a state in which all four are \<open>None\<close> passes.
\<close>

theorem validate_data_accepts:
  assumes "capacity s = None \<or> (0 \<le> the (capacity s) \<and> the (capacity s) \<le> 1000)"
    and "current s = None \<or> \<bar>the (current s)\<bar> \<le> 1000"
    and "voltage s = None \<or> (0 \<le> the (voltage s) \<and> the (voltage s) \<le> 100)"
    and "soc s = None \<or> (0 \<le> the (soc s) \<and> the (soc s) \<le> 100)"
  shows "validate_data s"
  unfolding validate_data_def using assms by (simp add: not_less)

text \<open>The freshly constructed battery has no telemetry at all and passes.\<close>

theorem validate_data_accepts_witness:
  "capacity (Battery ''/dev/ttyUSB0'' 115200 []) = None
   \<and> current (Battery ''/dev/ttyUSB0'' 115200 []) = None
   \<and> voltage (Battery ''/dev/ttyUSB0'' 115200 []) = None
   \<and> soc (Battery ''/dev/ttyUSB0'' 115200 []) = None
   \<and> validate_data (Battery ''/dev/ttyUSB0'' 115200 [])"
proof -
  let ?b = "Battery ''/dev/ttyUSB0'' 115200 []"
  have h: "capacity ?b = None" "current ?b = None" "voltage ?b = None" "soc ?b = None"
    unfolding Battery_def init_values_def by simp_all
  have "validate_data ?b"
    by (rule validate_data_accepts) (rule disjI1, rule h)+
  with h show ?thesis by blast
qed

subsection \<open>manage_charge_current\<close>

lemma py_round_zero: "py_round 0 n = 0"
  by (simp add: py_round_def round_half_even_def)

lemma nonneg_keys_update:
  "nonneg_keys l \<Longrightarrow> 0 \<le> v \<Longrightarrow> nonneg_keys (AList.update (Some v) n l)"
  by (auto simp add: nonneg_keys_def dom_update)

lemma nonneg_keys_add_limit:
  "nonneg_keys l \<Longrightarrow> candidate_nonneg b tmp \<Longrightarrow> nonneg_keys (add_limit g b tmp n l)"
  by (cases tmp) (auto simp add: add_limit_def candidate_nonneg_def nonneg_keys_update
      split: option.splits)

lemma nonneg_keys_add_bms_zero: "nonneg_keys l \<Longrightarrow> nonneg_keys (add_bms_zero l)"
  by (auto simp add: add_bms_zero_def nonneg_keys_update split: option.splits)

lemma zero_key_add_bms_zero: "Some 0 \<in> fst ` set (add_bms_zero l)"
  by (auto simp add: add_bms_zero_def dom_update split: option.splits)

lemma min_key_zero:
  assumes "nonneg_keys l" and "Some 0 \<in> fst ` set l"
  shows "min_key l = Inr (Some 0)"
proof (cases "map fst l")
  case Nil
  with assms(2) show ?thesis by simp
next
  case (Cons k ks)
  have ks: "set (k # ks) = fst ` set l" using Cons by (metis set_map)
  show ?thesis
  proof (cases ks)
    case Nil
    with ks assms(2) have "k = Some 0" by auto
    with Nil Cons show ?thesis by (simp add: min_key_def)
  next
    case (Cons k' ks')
    have none: "None \<notin> set (k # ks)"
      using assms(1) unfolding ks nonneg_keys_def by auto
    have "fold min (map the ks) (the k) = Min (set (the k # map the ks))"
      by (simp only: Min.set_eq_fold)
    also have "\<dots> = 0"
    proof (rule Min_eqI)
      show "finite (set (the k # map the ks))" by simp
      show "0 \<le> y" if "y \<in> set (the k # map the ks)" for y
      proof -
        from that have "y \<in> the ` set (k # ks)" by auto
        then obtain x where "x \<in> set (k # ks)" "y = the x" by blast
        with assms(1) ks show ?thesis unfolding nonneg_keys_def by force
      qed
      have "the (Some (0::rat)) \<in> the ` set (k # ks)"
        using assms(2) unfolding ks by (rule imageI)
      then show "0 \<in> set (the k # map the ks)" by simp
    qed
    finally have "fold min (map the ks) (the k) = 0" .
    with none Cons \<open>map fst l = k # ks\<close> show ?thesis
      by (simp add: min_key_def)
  qed
qed

lemma rounded_min_zero:
  "nonneg_keys l \<Longrightarrow> Some 0 \<in> fst ` set l \<Longrightarrow> rounded_min l = Inr (0, 0)"
  by (simp add: rounded_min_def min_key_zero py_round_zero)

lemma commit_test_zero: "commit_test u prev e 0 = Inr True"
  by (simp add: commit_test_def)

lemma charge_limits_disconnect:
  assumes "block_because_disconnect s" and "charge_candidates_nonneg u s"
  shows "\<exists>l. charge_limits u s = Inr l \<and> nonneg_keys l \<and> Some 0 \<in> fst ` set l"
proof -
  let ?g = "''Max Battery Charge Current''"
  let ?b = "max_battery_charge_current s"
  let ?l0 = "[(Some (MAX_BATTERY_CHARGE_CURRENT u), ?g)]"
  let ?l1 = "case ?b of
               Some m \<Rightarrow> if m < MAX_BATTERY_CHARGE_CURRENT u
                         then AList.update (Some m) ''BMS Settings'' ?l0 else ?l0
             | None \<Rightarrow> ?l0"
  let ?l2 = "if CCCM_CV_ENABLE u
             then add_limit ?g ?b (calcMaxChargeCurrentReferringToCellVoltage u s)
                    ''Cell Voltage'' ?l1
             else ?l1"
  from assms(2) have c:
    "0 \<le> MAX_BATTERY_CHARGE_CURRENT u"
    "candidate_nonneg None ?b"
    "CCCM_CV_ENABLE u \<Longrightarrow> candidate_nonneg ?b (calcMaxChargeCurrentReferringToCellVoltage u s)"
    "CCCM_SOC_ENABLE u \<Longrightarrow> candidate_nonneg ?b (calcMaxChargeCurrentReferringToSoc u s)"
    by (simp_all add: charge_candidates_nonneg_def)
  from assms(2) have t:
    "CCCM_T_ENABLE u \<Longrightarrow> \<exists>tmp. calcMaxChargeCurrentReferringToTemperature u s = Inr tmp
        \<and> candidate_nonneg ?b tmp"
    by (simp add: charge_candidates_nonneg_def split: sum.splits)
  have n0: "nonneg_keys ?l0" using c(1) by (simp add: nonneg_keys_def)
  have n1: "nonneg_keys ?l1"
    using c(1,2) by (simp add: candidate_nonneg_def nonneg_keys_def split: option.splits)
  have n2: "nonneg_keys ?l2"
    using n1 c(3) by (simp add: nonneg_keys_add_limit)
  obtain l3 where l3: "(if CCCM_T_ENABLE u
               then (case calcMaxChargeCurrentReferringToTemperature u s of
                       Inl e \<Rightarrow> Inl e
                     | Inr tmp \<Rightarrow> Inr (add_limit ?g ?b tmp ''Temp'' ?l2))
               else Inr ?l2) = Inr l3" and n3: "nonneg_keys l3"
  proof (cases "CCCM_T_ENABLE u")
    case True
    from t [OF True] obtain tmp where
      "calcMaxChargeCurrentReferringToTemperature u s = Inr tmp" "candidate_nonneg ?b tmp"
      by blast
    with True n2 that [of "add_limit ?g ?b tmp ''Temp'' ?l2"] show ?thesis
      by (simp add: nonneg_keys_add_limit)
  next
    case False
    with n2 that [of ?l2] show ?thesis by simp
  qed
  let ?l4 = "if CCCM_SOC_ENABLE u
             then add_limit ?g ?b (calcMaxChargeCurrentReferringToSoc u s) ''SoC'' l3
             else l3"
  have n4: "nonneg_keys ?l4" using n3 c(4) by (simp add: nonneg_keys_add_limit)
  have "charge_limits u s = Inr (add_bms_zero ?l4)"
    unfolding charge_limits_def Let_def l3 using assms(1) by simp
  with n4 show ?thesis
    by (simp add: nonneg_keys_add_bms_zero zero_key_add_bms_zero)
qed

lemma discharge_limits_disconnect:
  assumes "block_because_disconnect s" and "discharge_candidates_nonneg u s"
  shows "\<exists>l. discharge_limits u s = Inr l \<and> nonneg_keys l \<and> Some 0 \<in> fst ` set l"
proof -
  let ?g = "''Max Battery Discharge Current''"
  let ?b = "max_battery_discharge_current s"
  let ?l0 = "[(Some (MAX_BATTERY_DISCHARGE_CURRENT u), ?g)]"
  let ?l1 = "case ?b of
               Some m \<Rightarrow> if m < MAX_BATTERY_DISCHARGE_CURRENT u
                         then AList.update (Some m) ''BMS Settings'' ?l0 else ?l0
             | None \<Rightarrow> ?l0"
  let ?l2 = "if DCCM_CV_ENABLE u
             then add_limit ?g ?b (calcMaxDischargeCurrentReferringToCellVoltage u s)
                    ''Cell Voltage'' ?l1
             else ?l1"
  from assms(2) have c:
    "0 \<le> MAX_BATTERY_DISCHARGE_CURRENT u"
    "candidate_nonneg None ?b"
    "DCCM_CV_ENABLE u \<Longrightarrow> candidate_nonneg ?b (calcMaxDischargeCurrentReferringToCellVoltage u s)"
    "DCCM_SOC_ENABLE u \<Longrightarrow> candidate_nonneg ?b (calcMaxDischargeCurrentReferringToSoc u s)"
    by (simp_all add: discharge_candidates_nonneg_def)
  from assms(2) have t:
    "DCCM_T_ENABLE u \<Longrightarrow> \<exists>tmp. calcMaxDischargeCurrentReferringToTemperature u s = Inr tmp
        \<and> candidate_nonneg ?b tmp"
    by (simp add: discharge_candidates_nonneg_def split: sum.splits)
  have n1: "nonneg_keys ?l1"
    using c(1,2) by (simp add: candidate_nonneg_def nonneg_keys_def split: option.splits)
  have n2: "nonneg_keys ?l2"
    using n1 c(3) by (simp add: nonneg_keys_add_limit)
  obtain l3 where l3: "(if DCCM_T_ENABLE u
               then (case calcMaxDischargeCurrentReferringToTemperature u s of
                       Inl e \<Rightarrow> Inl e
                     | Inr tmp \<Rightarrow> Inr (add_limit ?g ?b tmp ''Temp'' ?l2))
               else Inr ?l2) = Inr l3" and n3: "nonneg_keys l3"
  proof (cases "DCCM_T_ENABLE u")
    case True
    from t [OF True] obtain tmp where
      "calcMaxDischargeCurrentReferringToTemperature u s = Inr tmp" "candidate_nonneg ?b tmp"
      by blast
    with True n2 that [of "add_limit ?g ?b tmp ''Temp'' ?l2"] show ?thesis
      by (simp add: nonneg_keys_add_limit)
  next
    case False
    with n2 that [of ?l2] show ?thesis by simp
  qed
  let ?l4 = "if DCCM_SOC_ENABLE u
             then add_limit ?g ?b (calcMaxDischargeCurrentReferringToSoc u s) ''SoC'' l3
             else l3"
  have n4: "nonneg_keys ?l4" using n3 c(4) by (simp add: nonneg_keys_add_limit)
  have "discharge_limits u s = Inr (add_bms_zero ?l4)"
    unfolding discharge_limits_def Let_def l3 using assms(1) by simp
  with n4 show ?thesis
    by (simp add: nonneg_keys_add_bms_zero zero_key_add_bms_zero)
qed

lemma ccl_disconnect:
  assumes "block_because_disconnect s" and "charge_candidates_nonneg u s"
  shows "\<exists>l. manage_charge_current_ccl u a b s =
           Return (s\<lparr>linear_ccl_last_set := b, control_charge_current := Some 0,
                      charge_limitation := l, control_allow_charge := Some False\<rparr>)"
proof -
  from charge_limits_disconnect [OF assms] obtain l where
    l: "charge_limits u s = Inr l" "nonneg_keys l" "Some 0 \<in> fst ` set l"
    by blast
  from l(2,3) have "rounded_min l = Inr (0, 0)" by (rule rounded_min_zero)
  with l(1) show ?thesis
    by (intro exI [of _ "map_of l (Some 0)"])
      (simp add: manage_charge_current_ccl_def commit_test_zero)
qed

lemma dcl_disconnect:
  assumes "block_because_disconnect s" and "discharge_candidates_nonneg u s"
  shows "\<exists>l. manage_charge_current_dcl u a b s =
           Return (s\<lparr>linear_dcl_last_set := b, control_discharge_current := Some 0,
                      discharge_limitation := l, control_allow_discharge := Some False\<rparr>)"
proof -
  from discharge_limits_disconnect [OF assms] obtain l where
    l: "discharge_limits u s = Inr l" "nonneg_keys l" "Some 0 \<in> fst ` set l"
    by blast
  from l(2,3) have "rounded_min l = Inr (0, 0)" by (rule rounded_min_zero)
  with l(1) show ?thesis
    by (intro exI [of _ "map_of l (Some 0)"])
      (simp add: manage_charge_current_dcl_def commit_test_zero)
qed

lemma discharge_candidates_frame:
  "discharge_candidates_nonneg u
     (s\<lparr>linear_ccl_last_set := b, control_charge_current := c,
        charge_limitation := l, control_allow_charge := d\<rparr>)
   = discharge_candidates_nonneg u s"
  unfolding discharge_candidates_nonneg_def calcMaxDischargeCurrentReferringToCellVoltage_def
    calcMaxDischargeCurrentReferringToTemperature_def calcMaxDischargeCurrentReferringToSoc_def
    get_min_cell_voltage_def get_max_temp_def get_min_temp_def temps_def known_voltages_def
  by (simp cong: option.case_cong sum.case_cong list.case_cong)

text \<open>
  C4: with \<open>block_because_disconnect\<close> set, \<open>manage_charge_current\<close> returns with
  \<open>control_charge_current = 0\<close>, \<open>control_discharge_current = 0\<close> and both allow flags
  \<open>False\<close>, whatever was committed before and whatever the clock says, for every state
  whose derating candidates are non-negative.
\<close>

theorem disconnect_forces_zero_limits:
  assumes "block_because_disconnect s"
    and "charge_candidates_nonneg u s" and "discharge_candidates_nonneg u s"
  shows "returns (manage_charge_current u t1 t2 t3 t4 s)
         \<and> control_charge_current (state_of (manage_charge_current u t1 t2 t3 t4 s)) = Some 0
         \<and> control_discharge_current (state_of (manage_charge_current u t1 t2 t3 t4 s)) = Some 0
         \<and> control_allow_charge (state_of (manage_charge_current u t1 t2 t3 t4 s)) = Some False
         \<and> control_allow_discharge (state_of (manage_charge_current u t1 t2 t3 t4 s)) = Some False"
proof -
  from ccl_disconnect [OF assms(1,2)] obtain l where
    c: "manage_charge_current_ccl u t1 t2 s =
          Return (s\<lparr>linear_ccl_last_set := t2, control_charge_current := Some 0,
                     charge_limitation := l, control_allow_charge := Some False\<rparr>)"
    by blast
  let ?s1 = "s\<lparr>linear_ccl_last_set := t2, control_charge_current := Some 0,
                charge_limitation := l, control_allow_charge := Some False\<rparr>"
  have "block_because_disconnect ?s1" using assms(1) by simp
  moreover have "discharge_candidates_nonneg u ?s1"
    using assms(3) by (simp only: discharge_candidates_frame)
  ultimately obtain l' where
    d: "manage_charge_current_dcl u t3 t4 ?s1 =
          Return (?s1\<lparr>linear_dcl_last_set := t4, control_discharge_current := Some 0,
                       discharge_limitation := l', control_allow_discharge := Some False\<rparr>)"
    using dcl_disconnect by blast
  show ?thesis
    unfolding manage_charge_current_def c and_then.simps d by simp
qed

lemma disconnected_pack_blocked: "block_because_disconnect disconnected_pack"
  by code_simp

lemma disconnected_pack_charge_candidates: "charge_candidates_nonneg scenario_utils disconnected_pack"
  by code_simp

lemma disconnected_pack_discharge_candidates: "discharge_candidates_nonneg scenario_utils disconnected_pack"
  by code_simp

text \<open>The disconnected scenario pack: 50 A was committed, the tick commits 0 A.\<close>

theorem disconnect_forces_zero_limits_witness:
  "block_because_disconnect disconnected_pack
   \<and> charge_candidates_nonneg scenario_utils disconnected_pack
   \<and> discharge_candidates_nonneg scenario_utils disconnected_pack
   \<and> control_charge_current disconnected_pack = Some 50
   \<and> returns (manage_charge_current scenario_utils 1000 1000 1000 1000 disconnected_pack)
   \<and> control_charge_current
       (state_of (manage_charge_current scenario_utils 1000 1000 1000 1000 disconnected_pack))
     = Some 0
   \<and> control_allow_discharge
       (state_of (manage_charge_current scenario_utils 1000 1000 1000 1000 disconnected_pack))
     = Some False"
proof -
  have p: "control_charge_current disconnected_pack = Some 50" by code_simp
  from disconnect_forces_zero_limits [OF disconnected_pack_blocked disconnected_pack_charge_candidates
      disconnected_pack_discharge_candidates, of 1000 1000 1000 1000]
    disconnected_pack_blocked disconnected_pack_charge_candidates
    disconnected_pack_discharge_candidates p
  show ?thesis by blast
qed

lemma dcl_frame_charge:
  "control_charge_current (state_of (manage_charge_current_dcl u a b s)) = control_charge_current s"
  "charge_limitation (state_of (manage_charge_current_dcl u a b s)) = charge_limitation s"
  unfolding manage_charge_current_dcl_def
  by (simp_all split: sum.splits prod.splits)

text \<open>
  C8: when the newly computed charge-current limit is not \<open>0\<close>, fewer than
  \<open>LINEAR_RECALCULATION_EVERY\<close> seconds have passed since \<open>linear_ccl_last_set\<close>, and the
  limit differs from the committed \<open>control_charge_current\<close> by less than
  \<open>LINEAR_RECALCULATION_ON_PERC_CHANGE\<close> percent of it, \<open>manage_charge_current\<close> leaves
  \<open>control_charge_current\<close> and \<open>charge_limitation\<close> as they were (also when the discharge
  half raises afterwards).
\<close>

theorem ccl_throttle_holds:
  assumes "charge_limits u s = Inr lims" and "rounded_min lims = Inr (m, ccl)"
    and "ccl \<noteq> 0"
    and "of_int (t1 - linear_ccl_last_set s) < LINEAR_RECALCULATION_EVERY u"
    and "control_charge_current s = Some c"
    and "\<bar>c - ccl\<bar> < c * LINEAR_RECALCULATION_ON_PERC_CHANGE u / 100"
  shows "control_charge_current (state_of (manage_charge_current u t1 t2 t3 t4 s)) = Some c
         \<and> charge_limitation (state_of (manage_charge_current u t1 t2 t3 t4 s))
           = charge_limitation s"
proof -
  have "commit_test u (control_charge_current s) (t1 - linear_ccl_last_set s) ccl = Inr False"
    using assms(3-6) by (simp add: commit_test_def not_le)
  then have "manage_charge_current_ccl u t1 t2 s
             = Return (s\<lparr>control_allow_charge := Some (control_charge_current s \<noteq> Some 0)\<rparr>)"
    using assms(1,2) by (simp add: manage_charge_current_ccl_def)
  then show ?thesis
    using assms(5) by (simp add: manage_charge_current_def dcl_frame_charge)
qed

lemma throttled_pack_limits: "charge_limits scenario_utils throttled_pack =
   Inr [(Some 100, ''Max Battery Charge Current''), (Some (509 / 100), ''Cell Voltage''),
        (Some (250 / 3), ''Temp'')]"
  by code_simp

lemma throttled_pack_rounded_min: "rounded_min [(Some 100, ''Max Battery Charge Current''), (Some (509 / 100), ''Cell Voltage''),
        (Some (250 / 3), ''Temp'')] = Inr (509 / 100, 509 / 100)"
  by code_simp

text \<open>The new limit is 5.09 A, ten seconds after 5 A was committed: 5 A stays.\<close>

theorem ccl_throttle_holds_witness:
  "charge_limits scenario_utils throttled_pack =
     Inr [(Some 100, ''Max Battery Charge Current''), (Some (509 / 100), ''Cell Voltage''),
          (Some (250 / 3), ''Temp'')]
   \<and> control_charge_current throttled_pack = Some 5
   \<and> control_charge_current
       (state_of (manage_charge_current scenario_utils 1000 1000 1000 1000 throttled_pack))
     = Some 5
   \<and> charge_limitation
       (state_of (manage_charge_current scenario_utils 1000 1000 1000 1000 throttled_pack))
     = Some ''Cell Voltage''"
proof -
  have a: "(509 / 100 :: rat) \<noteq> 0" by simp
  have b: "of_int (1000 - linear_ccl_last_set throttled_pack)
           < LINEAR_RECALCULATION_EVERY scenario_utils" by code_simp
  have c: "control_charge_current throttled_pack = Some 5" by code_simp
  have d: "\<bar>5 - 509 / 100\<bar> < 5 * LINEAR_RECALCULATION_ON_PERC_CHANGE scenario_utils / 100"
    by code_simp
  have e: "charge_limitation throttled_pack = Some ''Cell Voltage''" by code_simp
  from ccl_throttle_holds [OF throttled_pack_limits throttled_pack_rounded_min a b c d,
      of 1000 1000 1000] throttled_pack_limits c e
  show ?thesis by simp
qed

subsection \<open>soc_calculation\<close>

lemma round_half_even_bounds:
  assumes "of_int a \<le> y" and "y \<le> of_int b"
  shows "a \<le> round_half_even y \<and> round_half_even y \<le> b"
proof -
  have lo: "a \<le> \<lfloor>y\<rfloor>" using assms(1) by (simp add: le_floor_iff)
  have hi: "\<lfloor>y\<rfloor> \<le> b" using assms(2) by (simp add: floor_le_iff) 
  have up: "\<lfloor>y\<rfloor> + 1 \<le> b" if "y - of_int \<lfloor>y\<rfloor> \<noteq> 0"
  proof -
    have "of_int \<lfloor>y\<rfloor> < y" using that of_int_floor_le [of y] by linarith
    with assms(2) have "(of_int \<lfloor>y\<rfloor> :: rat) < of_int b" by linarith
    then have "\<lfloor>y\<rfloor> < b" by (simp only: of_int_less_iff)
    then show ?thesis by simp
  qed
  show ?thesis
    unfolding round_half_even_def Let_def using lo hi up by auto
qed

lemma py_round_percent_bounds:
  assumes "0 \<le> x" and "x \<le> 100"
  shows "0 \<le> py_round x 2 \<and> py_round x 2 \<le> 100"
proof -
  have "of_int 0 \<le> x * 10 ^ 2" "x * 10 ^ 2 \<le> of_int 10000"
    using assms by simp_all
  from round_half_even_bounds [OF this]
  have "0 \<le> round_half_even (x * 10 ^ 2)" "round_half_even (x * 10 ^ 2) \<le> 10000"
    by simp_all
  then have "(0::rat) \<le> of_int (round_half_even (x * 10 ^ 2))"
    "(of_int (round_half_even (x * 10 ^ 2)) :: rat) \<le> 10000"
    by simp_all
  then show ?thesis
    unfolding py_round_def by (simp add: divide_le_eq)
qed

lemma and_then_Return:
  "and_then r f = Return s' \<longleftrightarrow> (\<exists>s2. r = Return s2 \<and> f s2 = Return s')"
  by (cases r) simp_all

lemma clamped_in_range: "0 < cap \<Longrightarrow> 0 \<le> max (min x cap) 0 \<and> max (min (x::rat) cap) 0 \<le> cap"
  by (simp add: max_def min_def)

lemma soc_integrate_returns:
  assumes "returns (soc_integrate u t s)"
  shows "capacity (state_of (soc_integrate u t s)) = capacity s \<and> capacity s \<noteq> None
         \<and> (\<exists>x. soc_calc_capacity_remain (state_of (soc_integrate u t s))
                  = Some (max (min x (the (capacity s))) 0))"
  using assms unfolding soc_integrate_def Let_def
  by (simp split: sum.splits option.splits prod.splits) blast

lemma soc_integrate_range:
  assumes "soc_integrate u t s = Return s'" and "capacity s = Some cap" and "0 < cap"
  shows "remain_in_range cap s'"
proof -
  from assms(1) have "returns (soc_integrate u t s)" "state_of (soc_integrate u t s) = s'"
    by simp_all
  with soc_integrate_returns [of u t s] assms(2) obtain x where
    "capacity s' = Some cap" "soc_calc_capacity_remain s' = Some (max (min x cap) 0)"
    by auto
  with clamped_in_range [OF assms(3), of x] show ?thesis
    by (simp add: remain_in_range_def)
qed

lemma soc_check_full_range:
  assumes "soc_check_full u t vs mcv s = Return s'" and "remain_in_range cap s" and "0 < cap"
  shows "remain_in_range cap s'"
proof -
  from assms(1) have "state_of (soc_check_full u t vs mcv s) = s'" by simp
  moreover have "remain_in_range cap (state_of (soc_check_full u t vs mcv s))"
    using assms(2,3) unfolding soc_check_full_def remain_in_range_def
    by (simp split: option.splits)
  ultimately show ?thesis by simp
qed

lemma soc_check_empty_range:
  assumes "soc_check_empty u t mcv s = Return s'" and "remain_in_range cap s" and "0 < cap"
  shows "remain_in_range cap s'"
proof -
  from assms(1) have "state_of (soc_check_empty u t mcv s) = s'" by simp
  moreover have "remain_in_range cap (state_of (soc_check_empty u t mcv s))"
    using assms(2,3) unfolding soc_check_empty_def remain_in_range_def
    by (simp split: option.splits)
  ultimately show ?thesis by simp
qed

lemma seed_scaled:
  assumes "0 < cap" and "0 \<le> p" and "p \<le> 100"
  shows "0 \<le> cap * p / 100 \<and> cap * p / 100 \<le> (cap::rat)"
proof -
  have "cap * p \<le> cap * 100" using assms by (simp add: mult_left_mono)
  then show ?thesis using assms by simp
qed

lemma soc_initialize_range:
  assumes "soc_initialize t s = Return s'" and "capacity s = Some cap" and "0 < cap"
    and "seed_in_range s"
  shows "remain_in_range cap s'"
proof -
  from assms(1) have r: "returns (soc_initialize t s)" "state_of (soc_initialize t s) = s'"
    by simp_all
  have "returns (soc_initialize t s) \<longrightarrow> remain_in_range cap (state_of (soc_initialize t s))"
    using assms(2-4) unfolding soc_initialize_def remain_in_range_def seed_in_range_def
    by (simp add: seed_scaled less_imp_le del: not_None_eq split: option.splits)
  with r show ?thesis by simp
qed

lemma soc_finalize_returns:
  assumes "soc_finalize s = Return s'" and "capacity s = Some cap"
  shows "soc_calc_capacity_remain s \<noteq> None
      \<and> soc_calc_capacity_remain s' = soc_calc_capacity_remain s
      \<and> soc_calc s' = Some (py_round (max (min (the (soc_calc_capacity_remain s) / cap * 100) 100) 0) 2)"
proof -
  from assms(1) have r: "returns (soc_finalize s)" "state_of (soc_finalize s) = s'"
    by simp_all
  have "returns (soc_finalize s) \<longrightarrow>
      soc_calc_capacity_remain s \<noteq> None
      \<and> soc_calc_capacity_remain (state_of (soc_finalize s)) = soc_calc_capacity_remain s
      \<and> soc_calc (state_of (soc_finalize s))
          = Some (py_round (max (min (the (soc_calc_capacity_remain s) / cap * 100) 100) 0) 2)"
    using assms(2) unfolding soc_finalize_def
    by (simp del: not_None_eq split: option.splits)
  with r show ?thesis by simp
qed

lemma capacity_frame:
  "capacity (state_of (soc_integrate u t s)) = capacity s"
  "capacity (state_of (soc_check_full u t vs mcv s)) = capacity s"
  "capacity (state_of (soc_check_empty u t mcv s)) = capacity s"
  "capacity (state_of (soc_initialize t s)) = capacity s"
  unfolding soc_integrate_def soc_check_full_def soc_check_empty_def soc_initialize_def Let_def
  by (simp_all split: option.splits sum.splits prod.splits)

lemma soc_tick_Return:
  assumes "(if soc_calc_capacity_remain s1 \<noteq> None then
              and_then (soc_integrate u t s1) (\<lambda>s2.
              and_then (soc_check_full u t vs mcv s2) (soc_check_empty u t mcv))
            else soc_initialize t s1) = Return s2"
    and "capacity s1 = Some cap" and "0 < cap"
  shows "capacity s2 = Some cap"
    and "soc_calc_capacity_remain s1 \<noteq> None \<or> seed_in_range s1 \<Longrightarrow> remain_in_range cap s2"
proof -
  show "capacity s2 = Some cap"
  proof (cases "soc_calc_capacity_remain s1 \<noteq> None")
    case True
    with assms(1) obtain sa sb where
      "soc_integrate u t s1 = Return sa" "soc_check_full u t vs mcv sa = Return sb"
      "soc_check_empty u t mcv sb = Return s2"
      by (auto simp add: and_then_Return simp del: not_None_eq)
    then have "state_of (soc_integrate u t s1) = sa"
      "state_of (soc_check_full u t vs mcv sa) = sb"
      "state_of (soc_check_empty u t mcv sb) = s2" by simp_all
    with capacity_frame(1) [of u t s1] capacity_frame(2) [of u t vs mcv sa]
      capacity_frame(3) [of u t mcv sb] assms(2)
    show ?thesis by simp
  next
    case False
    with assms(1) have "state_of (soc_initialize t s1) = s2" by simp
    with capacity_frame(4) [of t s1] assms(2) show ?thesis by simp
  qed
  show "remain_in_range cap s2" if "soc_calc_capacity_remain s1 \<noteq> None \<or> seed_in_range s1"
  proof (cases "soc_calc_capacity_remain s1 \<noteq> None")
    case True
    with assms(1) obtain sa sb where
      "soc_integrate u t s1 = Return sa" "soc_check_full u t vs mcv sa = Return sb"
      "soc_check_empty u t mcv sb = Return s2"
      by (auto simp add: and_then_Return simp del: not_None_eq)
    with assms(2,3) show ?thesis
      by (blast intro: soc_integrate_range soc_check_full_range soc_check_empty_range)
  next
    case False
    with assms(1) that have "soc_initialize t s1 = Return s2" "seed_in_range s1" by simp_all
    with assms(2,3) show ?thesis by (blast intro: soc_initialize_range)
  qed
qed

lemma seed_in_range_frame: "seed_in_range (s\<lparr>current_corrected := c\<rparr>) = seed_in_range s"
  by (simp add: seed_in_range_def cong: option.case_cong)

text \<open>
  C5 (amended): for every state with a positive capacity, when \<open>soc_calculation\<close>
  returns, \<open>soc_calc\<close> is the clamped percentage rounded to two decimals and lies in
  \<open>[0, 100]\<close>; the accumulator lies in \<open>[0, capacity]\<close> when it was already running
  before the call, or when the percentage it is seeded from lies in \<open>[0, 100]\<close>.
\<close>

theorem soc_calculation_invariant:
  assumes "capacity s = Some cap" and "0 < cap" and "soc_calculation u t s = Return s'"
  shows "soc_calc s' \<noteq> None \<and> 0 \<le> the (soc_calc s') \<and> the (soc_calc s') \<le> 100
       \<and> soc_calc_capacity_remain s' \<noteq> None
       \<and> soc_calc s'
           = Some (py_round (max (min (the (soc_calc_capacity_remain s') / cap * 100) 100) 0) 2)
       \<and> (soc_calc_capacity_remain s \<noteq> None \<or> seed_in_range s \<longrightarrow>
            0 \<le> the (soc_calc_capacity_remain s') \<and> the (soc_calc_capacity_remain s') \<le> cap)"
proof -
  let ?s1 = "s\<lparr>current_corrected := Some 0\<rparr>"
  let ?mcv = "get_min_cell_voltage ?s1"
  from assms(3) obtain vs where vs: "cell_voltage_sum ?s1 = Inr vs"
    unfolding soc_calculation_def Let_def by (cases "cell_voltage_sum ?s1") simp_all
  let ?A = "if soc_calc_capacity_remain ?s1 \<noteq> None then
              and_then (soc_integrate u t ?s1) (\<lambda>s2.
              and_then (soc_check_full u t vs ?mcv s2) (soc_check_empty u t ?mcv))
            else soc_initialize t ?s1"
  from assms(3) vs have "and_then ?A soc_finalize = Return s'"
    unfolding soc_calculation_def Let_def by simp
  then obtain s2 where A: "?A = Return s2" and f: "soc_finalize s2 = Return s'"
    unfolding and_then_Return by blast
  have c1: "capacity ?s1 = Some cap" using assms(1) by simp
  note t = soc_tick_Return [OF A c1 assms(2)]
  note fin = soc_finalize_returns [OF f t(1)]
  let ?x = "max (min (the (soc_calc_capacity_remain s2) / cap * 100) 100) 0"
  have "0 \<le> ?x" "?x \<le> 100" by simp_all
  from py_round_percent_bounds [OF this] fin
  have sc: "soc_calc s' \<noteq> None \<and> 0 \<le> the (soc_calc s') \<and> the (soc_calc s') \<le> 100"
    by simp
  have rng: "0 \<le> the (soc_calc_capacity_remain s') \<and> the (soc_calc_capacity_remain s') \<le> cap"
    if "soc_calc_capacity_remain s \<noteq> None \<or> seed_in_range s"
  proof -
    from that have "soc_calc_capacity_remain ?s1 \<noteq> None \<or> seed_in_range ?s1"
      by (simp add: seed_in_range_frame del: not_None_eq)
    from t(2) [OF this] fin show ?thesis by (simp add: remain_in_range_def)
  qed
  from sc fin rng show ?thesis by simp
qed
lemma get_cell_voltage_frame:
  "get_cell_voltage (s\<lparr>current_corrected := c\<rparr>) i = get_cell_voltage s i"
  by (simp add: get_cell_voltage_def cong: option.case_cong if_cong)

lemma sum_cells_frame:
  "sum_cells (s\<lparr>current_corrected := c\<rparr>) is acc = sum_cells s is acc"
  by (induction "is" arbitrary: acc) (simp_all add: get_cell_voltage_frame cong: sum.case_cong)

lemma cell_voltage_sum_frame:
  "cell_voltage_sum (s\<lparr>current_corrected := c\<rparr>) = cell_voltage_sum s"
  by (simp add: cell_voltage_sum_def sum_cells_frame cong: option.case_cong)

lemma get_min_cell_voltage_frame:
  "get_min_cell_voltage (s\<lparr>current_corrected := c\<rparr>) = get_min_cell_voltage s"
  by (simp add: get_min_cell_voltage_def known_voltages_def cong: option.case_cong)

text \<open>
  C3 (amended): in \<open>soc_calculation\<close> with a running accumulator, when the lowest cell is
  above \<open>0.99 * MAX_CELL_VOLTAGE\<close> (and not below \<open>1.01 * MIN_CELL_VOLTAGE\<close>, so that
  the empty-endpoint check is idle), the snap to full fires exactly when the signed
  current is below \<open>SOC_RESET_CURRENT\<close>, the pack sum is at least
  \<open>max_battery_voltage - VOLTAGE_DROP\<close>, the dwell start time is set and not \<open>0\<close>, strictly
  more than \<open>SOC_RESET_TIME\<close> whole seconds have passed since it, and the integrated
  and clamped accumulator differs from the capacity; firing sets the accumulator to the
  capacity. When one of the first three conditions fails the dwell start becomes
  \<open>int(now)\<close>, otherwise it is kept.
\<close>

theorem soc_full_endpoint:
  assumes "soc_calc_capacity_remain s = Some r0"
    and "soc_calc_capacity_remain_lasttime s = Some t0"
    and "capacity s = Some cap" and "cap \<noteq> 0"
    and "calcLinearRelationship u (current s) (SOC_CALC_CURRENT_REPORTED_BY_BMS u)
           (SOC_CALC_CURRENT_MEASURED_BY_USER u) = Inr c"
    and "cell_voltage_sum s = Inr vs"
    and "get_min_cell_voltage s = Some mcv"
    and "MAX_CELL_VOLTAGE u * (99 / 100) < mcv"
    and "MIN_CELL_VOLTAGE u * (101 / 100) \<le> mcv"
    and "current s = Some cur" and "max_battery_voltage s = Some mbv"
  shows "returns (soc_calculation u t s)
    \<and> soc_calc_capacity_remain (state_of (soc_calculation u t s))
        = Some (if cur < SOC_RESET_CURRENT u \<and> mbv - VOLTAGE_DROP u \<le> vs
                   \<and> truthy_int (soc_calc_reset_starttime s)
                   \<and> SOC_RESET_TIME u < of_int (py_int t - the (soc_calc_reset_starttime s))
                   \<and> max (min (r0 + py_round c 2 * (t - t0) / 3600) cap) 0 \<noteq> cap
                then cap
                else max (min (r0 + py_round c 2 * (t - t0) / 3600) cap) 0)
    \<and> soc_calc_reset_starttime (state_of (soc_calculation u t s))
        = (if cur < SOC_RESET_CURRENT u \<and> mbv - VOLTAGE_DROP u \<le> vs
              \<and> truthy_int (soc_calc_reset_starttime s)
           then soc_calc_reset_starttime s else Some (py_int t))"
  using assms
  unfolding soc_calculation_def Let_def cell_voltage_sum_frame get_min_cell_voltage_frame
    soc_integrate_def soc_check_full_def soc_check_empty_def soc_finalize_def
  by (simp add: not_less)

text \<open>
  C3 (as stated, refuted): the test is on the signed current. Under a discharge of 50 A,
  whose magnitude is not below \<open>SOC_RESET_CURRENT = 5\<close>, the accumulator (91.99 Ah after
  integration) is snapped to 100 Ah.
\<close>

theorem soc_full_endpoint_counterexample:
  "current discharging_full_pack = Some (- 50)
   \<and> \<not> \<bar>- 50\<bar> < SOC_RESET_CURRENT scenario_utils
   \<and> soc_calc_capacity_remain (state_of (soc_integrate scenario_utils 1001 discharging_full_pack))
       = Some (6623 / 72)
   \<and> soc_calc_capacity_remain (state_of (soc_calculation scenario_utils 1001 discharging_full_pack))
       = Some 100"
  by code_simp

lemma resting_full_pack_facts:
  "soc_calc_capacity_remain resting_full_pack = Some 92"
  "soc_calc_capacity_remain_lasttime resting_full_pack = Some 940"
  "capacity resting_full_pack = Some 100"
  "calcLinearRelationship scenario_utils (current resting_full_pack)
     (SOC_CALC_CURRENT_REPORTED_BY_BMS scenario_utils)
     (SOC_CALC_CURRENT_MEASURED_BY_USER scenario_utils) = Inr 1"
  "cell_voltage_sum resting_full_pack = Inr (1378 / 100)"
  "get_min_cell_voltage resting_full_pack = Some (343 / 100)"
  "MAX_CELL_VOLTAGE scenario_utils * (99 / 100) < 343 / 100"
  "MIN_CELL_VOLTAGE scenario_utils * (101 / 100) \<le> 343 / 100"
  "current resting_full_pack = Some 1"
  "max_battery_voltage resting_full_pack = Some (138 / 10)"
  by code_simp+

lemma resting_full_pack_dwell:
  "soc_calc_reset_starttime resting_full_pack = Some 930"
  "(1 < SOC_RESET_CURRENT scenario_utils \<and> 138 / 10 - VOLTAGE_DROP scenario_utils \<le> 1378 / 100
    \<and> truthy_int (Some 930)
    \<and> SOC_RESET_TIME scenario_utils < of_int (py_int 1000 - the (Some 930))
    \<and> max (min (92 + py_round 1 2 * (1000 - 940) / 3600) 100) 0 \<noteq> 100) = True"
  "(1 < SOC_RESET_CURRENT scenario_utils \<and> 138 / 10 - VOLTAGE_DROP scenario_utils \<le> 1378 / 100
    \<and> truthy_int (Some 930)) = True"
  by code_simp+

text \<open>Scenario E: the accumulator goes from 92 Ah to 100 Ah, the dwell start stays.\<close>

theorem soc_full_endpoint_witness:
  "get_min_cell_voltage resting_full_pack = Some (343 / 100)
   \<and> MAX_CELL_VOLTAGE scenario_utils * (99 / 100) < 343 / 100
   \<and> current resting_full_pack = Some 1
   \<and> soc_calc_capacity_remain resting_full_pack = Some 92
   \<and> returns (soc_calculation scenario_utils 1000 resting_full_pack)
   \<and> soc_calc_capacity_remain (state_of (soc_calculation scenario_utils 1000 resting_full_pack))
       = Some 100
   \<and> soc_calc_reset_starttime (state_of (soc_calculation scenario_utils 1000 resting_full_pack))
       = Some 930"
proof -
  have n: "(100::rat) \<noteq> 0" by simp
  note f = resting_full_pack_facts
  note c = soc_full_endpoint [OF f(1) f(2) f(3) n f(4) f(5) f(6) f(7) f(8) f(9) f(10),
      of 1000, unfolded resting_full_pack_dwell if_True]
  from c f(1,6,7,9) show ?thesis by (simp only: simp_thms)
qed

text \<open>
  C5 (as stated, refuted): the seeding branch does not clamp. On the first tick of a pack
  of 100 Ah whose BMS reports 150 %, the accumulator becomes 150 Ah.
\<close>

theorem soc_calculation_invariant_counterexample:
  "capacity overreporting_pack = Some 100
   \<and> returns (soc_calculation scenario_utils 1000 overreporting_pack)
   \<and> soc_calc_capacity_remain (state_of (soc_calculation scenario_utils 1000 overreporting_pack))
       = Some 150"
  by code_simp

lemma returns_Return: "returns r \<Longrightarrow> r = Return (state_of r)"
  by (cases r) simp_all

lemma seeded_pack_facts:
  "capacity (scenario_pack [330 / 100, 330 / 100, 330 / 100, 330 / 100] 1) = Some 100"
  "returns (soc_calculation scenario_utils 1000
     (scenario_pack [330 / 100, 330 / 100, 330 / 100, 330 / 100] 1))"
  "seed_in_range (scenario_pack [330 / 100, 330 / 100, 330 / 100, 330 / 100] 1)"
  "soc_calc_capacity_remain (state_of (soc_calculation scenario_utils 1000
     (scenario_pack [330 / 100, 330 / 100, 330 / 100, 330 / 100] 1))) = Some 90"
  "soc_calc (state_of (soc_calculation scenario_utils 1000
     (scenario_pack [330 / 100, 330 / 100, 330 / 100, 330 / 100] 1))) = Some 90"
  by code_simp+

text \<open>The first tick of the scenario pack (BMS reports 90 %): 90 Ah and 90 %.\<close>

theorem soc_calculation_invariant_witness:
  "capacity (scenario_pack [330 / 100, 330 / 100, 330 / 100, 330 / 100] 1) = Some 100
   \<and> returns (soc_calculation scenario_utils 1000
        (scenario_pack [330 / 100, 330 / 100, 330 / 100, 330 / 100] 1))
   \<and> seed_in_range (scenario_pack [330 / 100, 330 / 100, 330 / 100, 330 / 100] 1)
   \<and> 0 \<le> the (soc_calc (state_of (soc_calculation scenario_utils 1000
        (scenario_pack [330 / 100, 330 / 100, 330 / 100, 330 / 100] 1))))
   \<and> the (soc_calc (state_of (soc_calculation scenario_utils 1000
        (scenario_pack [330 / 100, 330 / 100, 330 / 100, 330 / 100] 1)))) \<le> 100
   \<and> 0 \<le> the (soc_calc_capacity_remain (state_of (soc_calculation scenario_utils 1000
        (scenario_pack [330 / 100, 330 / 100, 330 / 100, 330 / 100] 1))))
   \<and> the (soc_calc_capacity_remain (state_of (soc_calculation scenario_utils 1000
        (scenario_pack [330 / 100, 330 / 100, 330 / 100, 330 / 100] 1)))) \<le> 100"
proof -
  let ?p = "scenario_pack [330 / 100, 330 / 100, 330 / 100, 330 / 100] 1"
  note f = seeded_pack_facts
  have p: "(0::rat) < 100" by simp
  from soc_calculation_invariant [OF f(1) p returns_Return [OF f(2)]] f(1,2,3)
  show ?thesis by blast
qed

subsection \<open>manage_charge_voltage_linear: the penalty regulator\<close>

lemma get_cell_voltage_read:
  "cell_count s = Some n \<Longrightarrow> get_cell_voltage s i = Inr (read_cell s n i)"
  by (simp add: get_cell_voltage_def read_cell_def)

lemma scan_cells_sums:
  assumes "cell_count s = Some n"
  shows "scan_cells u s is (a, p, f) =
           Inr (a + sum_list (map (\<lambda>i. volt_of (read_cell s n i)) is),
                p + sum_list (map (\<lambda>i. over_of u s (read_cell s n i)) is),
                f \<or> list_ex (\<lambda>i. high u s (read_cell s n i)) is)"
proof (induction "is" arbitrary: a p f)
  case Nil
  show ?case by simp
next
  case (Cons i "is")
  show ?case
  proof (cases "read_cell s n i")
    case None
    then show ?thesis
      by (simp add: get_cell_voltage_read [OF assms] Cons.IH volt_of_def over_of_def high_def)
  next
    case (Some x)
    then show ?thesis
      by (simp add: get_cell_voltage_read [OF assms] Cons.IH volt_of_def over_of_def high_def
          active_ceiling_def)
  qed
qed

lemma read_cells_upt:
  "map (read_cell s n) [0 ..< nat n]
     = map cell_voltage (take (nat n) (cells s)) @ replicate (nat n - length (cells s)) None"
proof (rule nth_equalityI)
  show "length (map (read_cell s n) [0 ..< nat n])
      = length (map cell_voltage (take (nat n) (cells s))
                @ replicate (nat n - length (cells s)) None)"
    by simp
next
  fix i assume "i < length (map (read_cell s n) [0 ..< nat n])"
  then have i: "i < nat n" by simp
  show "map (read_cell s n) [0 ..< nat n] ! i
      = (map cell_voltage (take (nat n) (cells s))
         @ replicate (nat n - length (cells s)) None) ! i"
  proof (cases "i < length (cells s)")
    case True
    with i have "\<not> min (int (length (cells s))) n \<le> int i" by simp
    with True i show ?thesis by (simp add: read_cell_def nth_append)
  next
    case False
    then have "min (int (length (cells s))) n \<le> int i" by simp
    with False i show ?thesis by (simp add: read_cell_def nth_append)
  qed
qed

lemma sum_list_replicate_zero: "sum_list (replicate k (0::rat)) = 0"
  by (induction k) simp_all

lemma above_ceiling_high: "above_ceiling u s c = high u s (cell_voltage c)"
  by (simp add: above_ceiling_def high_def)

text \<open>The loop of lines 420-439 computes the pack sum, the penalty sum and whether a
  counted cell is above the ceiling.\<close>

lemma scan_cells_closed:
  assumes "cell_count s = Some n"
  shows "scan_cells u s [0 ..< nat n] (0, 0, False) =
           Inr (pack_voltage_sum s, penalty_total u s,
                list_ex (above_ceiling u s) (counted_cells s))"
proof -
  let ?cs = "take (nat n) (cells s)"
  let ?k = "nat n - length (cells s)"
  have r: "map (read_cell s n) [0 ..< nat n] = map cell_voltage ?cs @ replicate ?k None"
    by (rule read_cells_upt)
  have "sum_list (map (\<lambda>i. volt_of (read_cell s n i)) [0 ..< nat n])
      = sum_list (map volt_of (map (read_cell s n) [0 ..< nat n]))"
    by (simp add: comp_def)
  also have "\<dots> = sum_list (map (\<lambda>c. volt_of (cell_voltage c)) ?cs)"
    unfolding r by (simp add: comp_def volt_of_def sum_list_replicate_zero)
  also have "\<dots> = pack_voltage_sum s"
    using assms by (simp add: pack_voltage_sum_def counted_cells_def volt_of_def)
  finally have a: "sum_list (map (\<lambda>i. volt_of (read_cell s n i)) [0 ..< nat n])
      = pack_voltage_sum s" .
  have "sum_list (map (\<lambda>i. over_of u s (read_cell s n i)) [0 ..< nat n])
      = sum_list (map (over_of u s) (map (read_cell s n) [0 ..< nat n]))"
    by (simp add: comp_def)
  also have "\<dots> = sum_list (map (\<lambda>c. over_of u s (cell_voltage c)) ?cs)"
    unfolding r by (simp add: comp_def over_of_def high_def sum_list_replicate_zero)
  also have "\<dots> = penalty_total u s"
    using assms
    by (simp add: penalty_total_def counted_cells_def sum_list_map_filter' over_of_def
        above_ceiling_high)
  finally have p: "sum_list (map (\<lambda>i. over_of u s (read_cell s n i)) [0 ..< nat n])
      = penalty_total u s" .
  have "list_ex (\<lambda>i. high u s (read_cell s n i)) [0 ..< nat n]
      = list_ex (high u s) (map (read_cell s n) [0 ..< nat n])"
    by (simp add: list_ex_iff)
  also have "\<dots> = list_ex (above_ceiling u s) (counted_cells s)"
    unfolding r using assms
    by (auto simp add: list_ex_iff counted_cells_def above_ceiling_high high_def)
  finally have f: "list_ex (\<lambda>i. high u s (read_cell s n i)) [0 ..< nat n]
      = list_ex (above_ceiling u s) (counted_cells s)" .
  show ?thesis
    unfolding scan_cells_sums [OF assms] a p f by simp
qed

lemma absorption_timer_frame:
  "cell_count (state_of (absorption_timer u t vs vd s)) = cell_count s"
  "cells (state_of (absorption_timer u t vs vd s)) = cells s"
  "min_battery_voltage (state_of (absorption_timer u t vs vd s)) = min_battery_voltage s"
  "max_battery_voltage (state_of (absorption_timer u t vs vd s)) = max_battery_voltage s"
  "soc_reset_battery_voltage (state_of (absorption_timer u t vs vd s))
     = soc_reset_battery_voltage s"
  "control_voltage (state_of (absorption_timer u t vs vd s)) = control_voltage s"
  "linear_cvl_last_set (state_of (absorption_timer u t vs vd s)) = linear_cvl_last_set s"
  unfolding absorption_timer_def Let_def
  by (simp_all split: option.splits)

lemma mode_suffix_handled:
  assumes "cell_count s = Some n"
  shows "returns (case mode_suffix u vd s of
                    Raise TypeError s' \<Rightarrow>
                      Return (s'\<lparr>control_voltage := None, charge_mode := Some ''--''\<rparr>)
                  | r \<Rightarrow> r)
       \<and> control_voltage (state_of (case mode_suffix u vd s of
                    Raise TypeError s' \<Rightarrow>
                      Return (s'\<lparr>control_voltage := None, charge_mode := Some ''--''\<rparr>)
                  | r \<Rightarrow> r)) = control_voltage s"
  using assms unfolding mode_suffix_def get_balancing_def Let_def
  by simp

lemma known_voltages_nonempty:
  assumes "c \<in> set (cells s)" and "cell_voltage c = Some v"
  shows "known_voltages s \<noteq> []"
proof -
  from assms have "v \<in> set (known_voltages s)"
    unfolding known_voltages_def List.map_filter_def by force
  then show ?thesis by auto
qed

lemma min_max_known:
  assumes "known_voltages s \<noteq> []"
  shows "get_min_cell_voltage s \<noteq> None" and "get_max_cell_voltage s \<noteq> None"
  using assms unfolding get_min_cell_voltage_def get_max_cell_voltage_def
  by (simp_all del: not_None_eq split: option.splits list.splits)

lemma high_cell_known:
  assumes "list_ex (above_ceiling u s) (counted_cells s)"
  shows "known_voltages s \<noteq> []"
proof -
  from assms obtain c where c: "c \<in> set (counted_cells s)" "above_ceiling u s c"
    unfolding list_ex_iff by blast
  from c(1) have "c \<in> set (cells s)"
    unfolding counted_cells_def by (rule in_set_takeD)
  moreover from c(2) obtain v where "cell_voltage c = Some v"
    unfolding above_ceiling_def by (cases "cell_voltage c") simp_all
  ultimately show ?thesis by (rule known_voltages_nonempty)
qed

text \<open>
  C6: in linear mode with the I-controller off, when some counted cell is above the
  active per-cell ceiling and \<open>allow_max_voltage\<close> is true where the regime is chosen
  (line 511, that is after the absorption timer has run), \<open>manage_charge_voltage_linear\<close>
  returns and commits \<open>clamp(pack sum - penalty sum, min_battery_voltage,
  max_battery_voltage)\<close> rounded to 3 decimals, the penalty sum being the total overshoot
  of the cells above the ceiling; inside the \<open>LINEAR_RECALCULATION_EVERY\<close> throttle
  window \<open>control_voltage\<close> keeps its value.
\<close>

theorem penalty_cvl:
  assumes "\<not> CVL_ICONTROLLER_MODE u"
    and "cell_count s = Some n"
    and "list_ex (above_ceiling u s) (counted_cells s)"
    and "min_battery_voltage s = Some lo" and "max_battery_voltage s = Some hi"
    and "absorption_timer u now (pack_voltage_sum s)
           (the (get_max_cell_voltage s) - the (get_min_cell_voltage s)) s = Return s1"
    and "allow_max_voltage s1"
  shows "returns (manage_charge_voltage_linear u now set_time s)
       \<and> control_voltage (state_of (manage_charge_voltage_linear u now set_time s))
          = (if LINEAR_RECALCULATION_EVERY u \<le> of_int (set_time - linear_cvl_last_set s)
             then Some (py_round (clamp (pack_voltage_sum s - penalty_total u s) lo hi) 3)
             else control_voltage s)"
proof -
  from high_cell_known [OF assms(3)] min_max_known [of s] obtain mx mn where
    mm: "get_max_cell_voltage s = Some mx" "get_min_cell_voltage s = Some mn"
    by auto
  from assms(6) have s1: "state_of (absorption_timer u now (pack_voltage_sum s) (mx - mn) s) = s1"
    and t: "absorption_timer u now (pack_voltage_sum s) (mx - mn) s = Return s1"
    unfolding mm by simp_all
  note fr = absorption_timer_frame [of u now "pack_voltage_sum s" "mx - mn" s, unfolded s1]
  let ?cv = "py_round (min (max (pack_voltage_sum s - penalty_total u s) lo) hi) 3"
  let ?s2 = "snd (set_cvl_linear u set_time ?cv s1)"
  let ?s3 = "?s2\<lparr>charge_mode :=
                  Some ((if max_voltage_start_time ?s2 = None then ''Bulk dynamic''
                         else ''Absorption dynamic'') @ soc_reset_tag ?s2)\<rparr>"
  have e: "emit_cvl u now set_time (pack_voltage_sum s) (penalty_total u s) True 0 s1
           = Return ?s3"
    unfolding emit_cvl_def Let_def using assms(1,4,5,7) fr by simp
  have "manage_charge_voltage_linear_try u now set_time s = mode_suffix u (mx - mn) ?s3"
    unfolding manage_charge_voltage_linear_try_def
    using assms(1,2,3) mm t e
    by (simp add: scan_cells_closed icontroller_def)
  then have m: "manage_charge_voltage_linear u now set_time s
      = (case mode_suffix u (mx - mn) ?s3 of
           Raise TypeError s' \<Rightarrow>
             Return (s'\<lparr>control_voltage := None, charge_mode := Some ''--''\<rparr>)
         | r \<Rightarrow> r)"
    unfolding manage_charge_voltage_linear_def by simp
  have c3: "cell_count ?s3 = Some n"
    using assms(2) fr(1) by (simp add: set_cvl_linear_def)
  have cv3: "control_voltage ?s3
      = (if LINEAR_RECALCULATION_EVERY u \<le> of_int (set_time - linear_cvl_last_set s)
         then Some ?cv else control_voltage s)"
    using fr(6,7) by (simp add: set_cvl_linear_def)
  from mode_suffix_handled [OF c3, of u "mx - mn"] cv3 show ?thesis
    unfolding m clamp_def by simp
qed

lemma penalty_pack_facts:
  "\<not> CVL_ICONTROLLER_MODE scenario_utils"
  "cell_count penalty_pack = Some 4"
  "list_ex (above_ceiling scenario_utils penalty_pack) (counted_cells penalty_pack)"
  "min_battery_voltage penalty_pack = Some (116 / 10)"
  "max_battery_voltage penalty_pack = Some (138 / 10)"
  "returns (absorption_timer scenario_utils 1000 (pack_voltage_sum penalty_pack)
     (the (get_max_cell_voltage penalty_pack) - the (get_min_cell_voltage penalty_pack))
     penalty_pack)"
  "allow_max_voltage (state_of (absorption_timer scenario_utils 1000
     (pack_voltage_sum penalty_pack)
     (the (get_max_cell_voltage penalty_pack) - the (get_min_cell_voltage penalty_pack))
     penalty_pack))"
  by code_simp+

lemma penalty_pack_value:
  "(if LINEAR_RECALCULATION_EVERY scenario_utils
        \<le> of_int (1000 - linear_cvl_last_set penalty_pack)
    then Some (py_round (clamp (pack_voltage_sum penalty_pack
                 - penalty_total scenario_utils penalty_pack) (116 / 10) (138 / 10)) 3)
    else control_voltage penalty_pack) = Some (1377 / 100)"
  "pack_voltage_sum penalty_pack = 1382 / 100"
  "penalty_total scenario_utils penalty_pack = 5 / 100"
  by code_simp+

text \<open>Scenario C: \<open>clamp(13.82 - 0.05, 11.6, 13.8) = 13.77\<close> V.\<close>

theorem penalty_cvl_witness:
  "\<not> CVL_ICONTROLLER_MODE scenario_utils
   \<and> list_ex (above_ceiling scenario_utils penalty_pack) (counted_cells penalty_pack)
   \<and> allow_max_voltage (state_of (absorption_timer scenario_utils 1000
        (pack_voltage_sum penalty_pack)
        (the (get_max_cell_voltage penalty_pack) - the (get_min_cell_voltage penalty_pack))
        penalty_pack))
   \<and> pack_voltage_sum penalty_pack = 1382 / 100
   \<and> penalty_total scenario_utils penalty_pack = 5 / 100
   \<and> returns (manage_charge_voltage_linear scenario_utils 1000 1000 penalty_pack)
   \<and> control_voltage (state_of (manage_charge_voltage_linear scenario_utils 1000 1000
        penalty_pack)) = Some (1377 / 100)"
proof -
  note f = penalty_pack_facts
  note c = penalty_cvl [OF f(1) f(2) f(3) f(4) f(5) returns_Return [OF f(6)] f(7),
      of 1000, unfolded penalty_pack_value(1)]
  from c f(1,3,7) penalty_pack_value(2,3) show ?thesis by (simp only: simp_thms)
qed

subsection \<open>manage_charge_voltage_linear: raising one cell\<close>

lemma sum_minus_filtered:
  "sum_list (map f xs) - sum_list (map g (filter P xs))
     = sum_list (map (\<lambda>c. f c - (if P c then g c else (0::rat))) xs)"
  by (induction xs) simp_all

lemma trimmed_sum:
  "pack_voltage_sum s - penalty_total u s = sum_list (map (trimmed u s) (counted_cells s))"
proof -
  have "trimmed u s = (\<lambda>c. (case cell_voltage c of None \<Rightarrow> 0 | Some v \<Rightarrow> v)
          - (if above_ceiling u s c then the (cell_voltage c) - active_ceiling u s else 0))"
    by (rule ext) (simp add: trimmed_def volt_of_def over_of_def above_ceiling_high)
  then show ?thesis
    unfolding pack_voltage_sum_def penalty_total_def sum_minus_filtered by simp
qed

lemma absorption_timer_frame_attr:
  "cell_max_voltage (state_of (absorption_timer u t vs vd s)) = cell_max_voltage s"
  unfolding absorption_timer_def Let_def
  by (simp split: option.splits)

lemma icontroller_returns:
  assumes "min_battery_voltage s = Some lo" and "max_battery_voltage s = Some hi"
    and "get_max_cell_voltage s = Some mx"
  shows "\<exists>cv. icontroller u s = Inr cv"
  using assms unfolding icontroller_def by simp

lemma timer_running_keeps_allow:
  assumes "max_voltage_start_time s = Some t0" and "allow_max_voltage s"
    and "of_int (now - t0) \<le> MAX_VOLTAGE_TIME_SEC u" and "0 \<le> MAX_VOLTAGE_TIME_SEC u"
    and "max_battery_voltage s = Some hi"
  shows "returns (absorption_timer u now vs vd s)
       \<and> allow_max_voltage (state_of (absorption_timer u now vs vd s))"
  using assms unfolding absorption_timer_def Let_def
  by (simp add: not_less)

lemma set_cell_voltage_fields:
  "cell_count (set_cell_voltage s i v) = cell_count s"
  "min_battery_voltage (set_cell_voltage s i v) = min_battery_voltage s"
  "max_battery_voltage (set_cell_voltage s i v) = max_battery_voltage s"
  "soc_reset_battery_voltage (set_cell_voltage s i v) = soc_reset_battery_voltage s"
  "allow_max_voltage (set_cell_voltage s i v) = allow_max_voltage s"
  "max_voltage_start_time (set_cell_voltage s i v) = max_voltage_start_time s"
  "control_voltage (set_cell_voltage s i v) = control_voltage s"
  "linear_cvl_last_set (set_cell_voltage s i v) = linear_cvl_last_set s"
  "cells (set_cell_voltage s i v) = (cells s)[i := (cells s ! i)\<lparr>cell_voltage := Some v\<rparr>]"
  by (simp_all add: set_cell_voltage_def)

lemma active_ceiling_frame: "active_ceiling u (set_cell_voltage s i v) = active_ceiling u s"
  by (simp add: active_ceiling_def set_cell_voltage_fields)

lemma trimmed_frame: "trimmed u (set_cell_voltage s i v) = trimmed u s"
  by (rule ext)
    (simp add: trimmed_def over_of_def high_def active_ceiling_frame cong: option.case_cong)

lemma counted_cells_set:
  "counted_cells (set_cell_voltage s i v)
     = (counted_cells s)[i := (cells s ! i)\<lparr>cell_voltage := Some v\<rparr>]"
  by (simp add: counted_cells_def set_cell_voltage_fields take_update_swap)

lemma sum_list_update_split:
  "i < length xs \<Longrightarrow>
   sum_list (map f (xs[i := c]))
     = sum_list (map f (take i xs)) + f c + sum_list (map f (drop (Suc i) xs))"
  by (simp add: upd_conv_take_nth_drop add.assoc)

lemma trimmed_high_cell:
  assumes "max_battery_voltage s \<noteq> soc_reset_battery_voltage s"
    and "MAX_CELL_VOLTAGE u < v" and "v \<noteq> 0"
  shows "trimmed u s (c\<lparr>cell_voltage := Some v\<rparr>) = MAX_CELL_VOLTAGE u"
  using assms by (simp add: trimmed_def volt_of_def over_of_def high_def active_ceiling_def)

lemma raised_cell_sum:
  assumes "cell_count s = Some n" and "i < length (cells s)" and "int i < n"
    and "max_battery_voltage s \<noteq> soc_reset_battery_voltage s"
    and "MAX_CELL_VOLTAGE u < v" and "v \<noteq> 0"
  shows "pack_voltage_sum (set_cell_voltage s i v) - penalty_total u (set_cell_voltage s i v)
       = sum_list (map (trimmed u s) (take i (counted_cells s))) + MAX_CELL_VOLTAGE u
         + sum_list (map (trimmed u s) (drop (Suc i) (counted_cells s)))"
proof -
  from assms(1-3) have "i < length (counted_cells s)"
    by (simp add: counted_cells_def)
  then show ?thesis
    unfolding trimmed_sum trimmed_frame counted_cells_set
    by (simp add: sum_list_update_split trimmed_high_cell [OF assms(4-6)])
qed

lemma raised_cell_high:
  assumes "cell_count s = Some n" and "i < length (cells s)" and "int i < n"
    and "max_battery_voltage s \<noteq> soc_reset_battery_voltage s"
    and "MAX_CELL_VOLTAGE u < v" and "v \<noteq> 0"
  shows "list_ex (above_ceiling u (set_cell_voltage s i v))
           (counted_cells (set_cell_voltage s i v))"
proof -
  let ?c = "(cells s ! i)\<lparr>cell_voltage := Some v\<rparr>"
  from assms(1-3) have "i < length (counted_cells s)"
    by (simp add: counted_cells_def)
  then have "?c \<in> set (counted_cells (set_cell_voltage s i v))"
    unfolding counted_cells_set by (rule set_update_memI)
  moreover have "above_ceiling u (set_cell_voltage s i v) ?c"
    using assms(4-6)
    by (simp add: above_ceiling_def active_ceiling_frame) (simp add: active_ceiling_def)
  ultimately show ?thesis unfolding list_ex_iff by blast
qed

lemma absorption_timer_frame_max:
  "get_max_cell_voltage (state_of (absorption_timer u t vs vd s)) = get_max_cell_voltage s"
  unfolding get_max_cell_voltage_def known_voltages_def
  by (simp add: absorption_timer_frame absorption_timer_frame_attr cong: option.case_cong)

lemma penalty_regime:
  assumes "cell_count s = Some n"
    and "list_ex (above_ceiling u s) (counted_cells s)"
    and "min_battery_voltage s = Some lo" and "max_battery_voltage s = Some hi"
    and "absorption_timer u now (pack_voltage_sum s)
           (the (get_max_cell_voltage s) - the (get_min_cell_voltage s)) s = Return s1"
    and "allow_max_voltage s1"
  shows "returns (manage_charge_voltage_linear u now set_time s)
       \<and> control_voltage (state_of (manage_charge_voltage_linear u now set_time s))
          = (if CVL_ICONTROLLER_MODE u
                \<or> LINEAR_RECALCULATION_EVERY u \<le> of_int (set_time - linear_cvl_last_set s)
             then Some (py_round (clamp (pack_voltage_sum s - penalty_total u s) lo hi) 3)
             else control_voltage s)"
proof -
  from high_cell_known [OF assms(2)] min_max_known [of s] obtain mx mn where
    mm: "get_max_cell_voltage s = Some mx" "get_min_cell_voltage s = Some mn"
    by auto
  from assms(5) have s1: "state_of (absorption_timer u now (pack_voltage_sum s) (mx - mn) s) = s1"
    and t: "absorption_timer u now (pack_voltage_sum s) (mx - mn) s = Return s1"
    unfolding mm by simp_all
  note fr = absorption_timer_frame [of u now "pack_voltage_sum s" "mx - mn" s, unfolded s1]
  note frm = absorption_timer_frame_max [of u now "pack_voltage_sum s" "mx - mn" s, unfolded s1]
  from icontroller_returns [of s1 lo hi mx u] fr(3,4) frm assms(3,4) mm(1)
  obtain cvl where ic: "icontroller u s1 = Inr cvl" by auto
  let ?cv = "py_round (min (max (pack_voltage_sum s - penalty_total u s) lo) hi) 3"
  let ?s2 = "if CVL_ICONTROLLER_MODE u then s1\<lparr>control_voltage := Some ?cv\<rparr>
             else snd (set_cvl_linear u set_time ?cv s1)"
  let ?s3 = "?s2\<lparr>charge_mode :=
                  Some ((if max_voltage_start_time ?s2 = None then ''Bulk dynamic''
                         else ''Absorption dynamic'') @ soc_reset_tag ?s2)\<rparr>"
  have e: "emit_cvl u now set_time (pack_voltage_sum s) (penalty_total u s) True cvl s1
           = Return ?s3"
    unfolding emit_cvl_def Let_def using assms(3,4,6) fr by simp
  have "manage_charge_voltage_linear_try u now set_time s = mode_suffix u (mx - mn) ?s3"
    unfolding manage_charge_voltage_linear_try_def
    using assms(1,2) mm t e ic
    by (simp add: scan_cells_closed)
  then have m: "manage_charge_voltage_linear u now set_time s
      = (case mode_suffix u (mx - mn) ?s3 of
           Raise TypeError s' \<Rightarrow>
             Return (s'\<lparr>control_voltage := None, charge_mode := Some ''--''\<rparr>)
         | r \<Rightarrow> r)"
    unfolding manage_charge_voltage_linear_def by simp
  have c3: "cell_count ?s3 = Some n"
    using assms(1) fr(1) by (simp add: set_cvl_linear_def)
  have cv3: "control_voltage ?s3
      = (if CVL_ICONTROLLER_MODE u
            \<or> LINEAR_RECALCULATION_EVERY u \<le> of_int (set_time - linear_cvl_last_set s)
         then Some ?cv else control_voltage s)"
    using fr(6,7) by (simp add: set_cvl_linear_def)
  from mode_suffix_handled [OF c3, of u "mx - mn"] cv3 show ?thesis
    unfolding m clamp_def by simp
qed

lemma raised_cell_cvl:
  assumes "cell_count s = Some n" and "i < length (cells s)" and "int i < n"
    and "max_battery_voltage s \<noteq> soc_reset_battery_voltage s"
    and "0 \<le> MAX_CELL_VOLTAGE u" and "MAX_CELL_VOLTAGE u < v"
    and "allow_max_voltage s" and "max_voltage_start_time s = Some t0"
    and "of_int (now - t0) \<le> MAX_VOLTAGE_TIME_SEC u" and "0 \<le> MAX_VOLTAGE_TIME_SEC u"
    and "min_battery_voltage s = Some lo" and "max_battery_voltage s = Some hi"
  shows "returns (manage_charge_voltage_linear u now set_time (set_cell_voltage s i v))
       \<and> control_voltage
            (state_of (manage_charge_voltage_linear u now set_time (set_cell_voltage s i v)))
          = (if CVL_ICONTROLLER_MODE u
                \<or> LINEAR_RECALCULATION_EVERY u \<le> of_int (set_time - linear_cvl_last_set s)
             then Some (py_round (clamp
                    (sum_list (map (trimmed u s) (take i (counted_cells s)))
                     + MAX_CELL_VOLTAGE u
                     + sum_list (map (trimmed u s) (drop (Suc i) (counted_cells s)))) lo hi) 3)
             else control_voltage s)"
proof -
  let ?sv = "set_cell_voltage s i v"
  note sf = set_cell_voltage_fields [of s i v]
  from assms(5,6) have v0: "v \<noteq> 0" by simp
  let ?timer = "absorption_timer u now (pack_voltage_sum ?sv)
     (the (get_max_cell_voltage ?sv) - the (get_min_cell_voltage ?sv)) ?sv"
  have tk: "returns ?timer \<and> allow_max_voltage (state_of ?timer)"
    by (rule timer_running_keeps_allow [where ?t0.0 = t0 and hi = hi])
      (use assms in \<open>simp_all add: sf\<close>)
  then have t: "?timer = Return (state_of ?timer)" by (simp add: returns_Return)
  have hc: "list_ex (above_ceiling u ?sv) (counted_cells ?sv)"
    by (rule raised_cell_high [OF assms(1-4) assms(6) v0])
  have "returns (manage_charge_voltage_linear u now set_time ?sv)
       \<and> control_voltage (state_of (manage_charge_voltage_linear u now set_time ?sv))
          = (if CVL_ICONTROLLER_MODE u
                \<or> LINEAR_RECALCULATION_EVERY u \<le> of_int (set_time - linear_cvl_last_set ?sv)
             then Some (py_round (clamp (pack_voltage_sum ?sv - penalty_total u ?sv) lo hi) 3)
             else control_voltage ?sv)"
    by (rule penalty_regime [OF _ hc _ _ t]) (simp_all add: sf assms tk)
  then show ?thesis
    unfolding raised_cell_sum [OF assms(1-4) assms(6) v0] sf by simp
qed

text \<open>
  C2 (amended): outside the SoC-reset excursion, with \<open>allow_max_voltage\<close> true, the
  absorption timer running and not expiring on this tick, pack limits set, and a counted
  cell above \<open>MAX_CELL_VOLTAGE\<close> while everything else is fixed, the CVL that
  \<open>manage_charge_voltage_linear\<close> leaves in \<open>control_voltage\<close> is non-increasing in that
  cell's voltage because it does not depend on it: raising the cell from \<open>v1\<close> to
  \<open>v2\<close> gives the same CVL. (The penalty cancels the cell's excess over
  \<open>MAX_CELL_VOLTAGE\<close> in the pack sum, see \<open>raised_cell_cvl\<close>.)
\<close>

theorem raised_cell_same_cvl:
  assumes "cell_count s = Some n" and "i < length (cells s)" and "int i < n"
    and "max_battery_voltage s \<noteq> soc_reset_battery_voltage s"
    and "0 \<le> MAX_CELL_VOLTAGE u" and "MAX_CELL_VOLTAGE u < v1" and "v1 \<le> v2"
    and "allow_max_voltage s" and "max_voltage_start_time s = Some t0"
    and "of_int (now - t0) \<le> MAX_VOLTAGE_TIME_SEC u" and "0 \<le> MAX_VOLTAGE_TIME_SEC u"
    and "min_battery_voltage s = Some lo" and "max_battery_voltage s = Some hi"
  shows "returns (manage_charge_voltage_linear u now set_time (set_cell_voltage s i v1))
       \<and> returns (manage_charge_voltage_linear u now set_time (set_cell_voltage s i v2))
       \<and> control_voltage
            (state_of (manage_charge_voltage_linear u now set_time (set_cell_voltage s i v2)))
          = control_voltage
            (state_of (manage_charge_voltage_linear u now set_time (set_cell_voltage s i v1)))"
proof -
  from assms(6,7) have v2: "MAX_CELL_VOLTAGE u < v2" by simp
  note a = raised_cell_cvl [OF assms(1-5) assms(6) assms(8-13), of set_time]
  note b = raised_cell_cvl [OF assms(1-5) v2 assms(8-13), of set_time]
  from a b show ?thesis by simp
qed

text \<open>
  C2 (as stated, refuted): the CVL is not strictly lowered as the cell rises. With the
  other cells at 3.44 V, the CVL is 13.77 V for the high cell at 3.50 V and still
  13.77 V at 3.60 V, far above the floor of 11.6 V.
\<close>

theorem raised_cell_same_cvl_counterexample:
  "MAX_CELL_VOLTAGE scenario_utils < 350 / 100 \<and> (350 / 100 :: rat) < 360 / 100
   \<and> allow_max_voltage absorbing_pack
   \<and> max_voltage_start_time absorbing_pack = Some 900
   \<and> min_battery_voltage absorbing_pack = Some (116 / 10)
   \<and> control_voltage (state_of (manage_charge_voltage_linear scenario_utils 1000 1000
         (set_cell_voltage absorbing_pack 0 (350 / 100)))) = Some (1377 / 100)
   \<and> control_voltage (state_of (manage_charge_voltage_linear scenario_utils 1000 1000
         (set_cell_voltage absorbing_pack 0 (360 / 100)))) = Some (1377 / 100)
   \<and> charge_mode (state_of (manage_charge_voltage_linear scenario_utils 1000 1000
         (set_cell_voltage absorbing_pack 0 (360 / 100))))
       = Some ''Absorption dynamic (Linear Mode)''"
  by code_simp

lemma absorbing_pack_facts:
  "cell_count absorbing_pack = Some 4"
  "0 < length (cells absorbing_pack)"
  "int 0 < 4"
  "max_battery_voltage absorbing_pack \<noteq> soc_reset_battery_voltage absorbing_pack"
  "0 \<le> MAX_CELL_VOLTAGE scenario_utils"
  "MAX_CELL_VOLTAGE scenario_utils < 350 / 100"
  "(350 / 100 :: rat) \<le> 360 / 100"
  "allow_max_voltage absorbing_pack"
  "max_voltage_start_time absorbing_pack = Some 900"
  "of_int (1000 - 900) \<le> MAX_VOLTAGE_TIME_SEC scenario_utils"
  "0 \<le> MAX_VOLTAGE_TIME_SEC scenario_utils"
  "min_battery_voltage absorbing_pack = Some (116 / 10)"
  "max_battery_voltage absorbing_pack = Some (138 / 10)"
  by code_simp+

text \<open>The same pack: 3.50 V and 3.60 V give the same CVL.\<close>

theorem raised_cell_same_cvl_witness:
  "MAX_CELL_VOLTAGE scenario_utils < 350 / 100 \<and> (350 / 100 :: rat) \<le> 360 / 100
   \<and> allow_max_voltage absorbing_pack
   \<and> max_voltage_start_time absorbing_pack = Some 900
   \<and> returns (manage_charge_voltage_linear scenario_utils 1000 1000
         (set_cell_voltage absorbing_pack 0 (360 / 100)))
   \<and> control_voltage (state_of (manage_charge_voltage_linear scenario_utils 1000 1000
         (set_cell_voltage absorbing_pack 0 (360 / 100))))
       = control_voltage (state_of (manage_charge_voltage_linear scenario_utils 1000 1000
         (set_cell_voltage absorbing_pack 0 (350 / 100))))"
proof -
  note f = absorbing_pack_facts
  from raised_cell_same_cvl [OF f(1) f(2) f(3) f(4) f(5) f(6) f(7) f(8) f(9) f(10) f(11)
      f(12) f(13), of 1000] f(6,7,8,9)
  show ?thesis by (simp only: simp_thms)
qed

subsection \<open>manage_charge_voltage_linear: the float transition\<close>

lemma absorption_timer_frame_float:
  "soc_reset_requested (state_of (absorption_timer u t vs vd s)) = soc_reset_requested s"
  "charge_mode (state_of (absorption_timer u t vs vd s)) = charge_mode s"
  "transition_start_time (state_of (absorption_timer u t vs vd s)) = transition_start_time s"
  "initial_control_voltage (state_of (absorption_timer u t vs vd s)) = initial_control_voltage s"
  unfolding absorption_timer_def Let_def
  by (simp_all split: option.splits)

lemma float_transition_prefix: "prefix ''Float Transition'' m \<Longrightarrow> prefix ''Float'' m"
proof -
  assume "prefix ''Float Transition'' m"
  moreover have "prefix ''Float'' ''Float Transition''" by simp
  ultimately show ?thesis by (rule prefix_order.trans [rotated])
qed

lemma float_regime_transition:
  assumes "cell_count s = Some n"
    and "control_voltage s = Some cv" and "cv \<noteq> 0"
    and "charge_mode s = Some m" and "prefix ''Float Transition'' m"
    and "transition_start_time s = Some t0" and "initial_control_voltage s = Some icv"
  shows "returns (float_regime u now set_time s)
    \<and> cell_count (state_of (float_regime u now set_time s)) = Some n
    \<and> allow_max_voltage (state_of (float_regime u now set_time s)) = allow_max_voltage s
    \<and> control_voltage (state_of (float_regime u now set_time s))
        = (let fv = py_round (FLOAT_CELL_VOLTAGE u * of_int n) 3;
               target = icv - min (of_int (now - t0) / 1000) (icv - fv);
               committed = (if LINEAR_RECALCULATION_EVERY u
                                 \<le> of_int (set_time - linear_cvl_last_set s)
                            then target else cv)
           in Some (if committed \<le> fv then fv else committed))
    \<and> charge_mode (state_of (float_regime u now set_time s))
        = (let fv = py_round (FLOAT_CELL_VOLTAGE u * of_int n) 3;
               target = icv - min (of_int (now - t0) / 1000) (icv - fv);
               committed = (if LINEAR_RECALCULATION_EVERY u
                                 \<le> of_int (set_time - linear_cvl_last_set s)
                            then target else cv)
           in Some (if committed \<le> fv then ''Float'' else ''Float Transition''))"
  using assms float_transition_prefix [OF assms(5)]
  unfolding float_regime_def Let_def set_cvl_linear_def
  by simp

lemma mode_suffix_float:
  assumes "\<not> allow_max_voltage s" and "control_voltage s = Some v" and "charge_mode s = Some m"
  shows "mode_suffix u vd s = Return (s\<lparr>charge_mode := Some (m @ '' (Linear Mode)'')\<rparr>)"
  using assms unfolding mode_suffix_def Let_def by simp

text \<open>
  C7 (amended): in the Float regime (\<open>allow_max_voltage\<close> false where the regime is
  chosen) with the label starting with \<open>Float Transition\<close>, a non-zero CVL, and \<open>t\<close>
  seconds since \<open>transition_start_time\<close>, \<open>manage_charge_voltage_linear\<close> commits
  \<open>initial_control_voltage - min(0.001 * t, initial_control_voltage - float_V)\<close>, where
  \<open>float_V\<close> is \<open>FLOAT_CELL_VOLTAGE * cell_count\<close> rounded to 3 decimals; inside the
  throttle window the CVL is kept. Once the CVL so obtained is at most \<open>float_V\<close>, the
  CVL is \<open>float_V\<close> and the mode is \<open>Float\<close>, else the mode stays \<open>Float Transition\<close>.
\<close>

theorem float_transition_ramp:
  assumes "cell_count s = Some n"
    and "get_max_cell_voltage s = Some mx" and "get_min_cell_voltage s = Some mn"
    and "min_battery_voltage s = Some lo" and "max_battery_voltage s = Some hi"
    and "absorption_timer u now (pack_voltage_sum s) (mx - mn) s = Return s1"
    and "\<not> allow_max_voltage s1"
    and "control_voltage s = Some cv" and "cv \<noteq> 0"
    and "charge_mode s = Some m" and "prefix ''Float Transition'' m"
    and "transition_start_time s = Some t0" and "initial_control_voltage s = Some icv"
  shows "returns (manage_charge_voltage_linear u now set_time s)
    \<and> control_voltage (state_of (manage_charge_voltage_linear u now set_time s))
        = (let float_V = py_round (FLOAT_CELL_VOLTAGE u * of_int n) 3;
               target = icv - min (of_int (now - t0) / 1000) (icv - float_V);
               committed = (if LINEAR_RECALCULATION_EVERY u
                                 \<le> of_int (set_time - linear_cvl_last_set s)
                            then target else cv)
           in Some (if committed \<le> float_V then float_V else committed))
    \<and> charge_mode (state_of (manage_charge_voltage_linear u now set_time s))
        = (let float_V = py_round (FLOAT_CELL_VOLTAGE u * of_int n) 3;
               target = icv - min (of_int (now - t0) / 1000) (icv - float_V);
               committed = (if LINEAR_RECALCULATION_EVERY u
                                 \<le> of_int (set_time - linear_cvl_last_set s)
                            then target else cv)
           in Some ((if committed \<le> float_V then ''Float'' else ''Float Transition'')
                    @ '' (Linear Mode)''))"
proof -
  from assms(6) have s1: "state_of (absorption_timer u now (pack_voltage_sum s) (mx - mn) s) = s1"
    by simp
  note fr = absorption_timer_frame [of u now "pack_voltage_sum s" "mx - mn" s, unfolded s1]
  note frm = absorption_timer_frame_max [of u now "pack_voltage_sum s" "mx - mn" s, unfolded s1]
  note frf = absorption_timer_frame_float [of u now "pack_voltage_sum s" "mx - mn" s,
      unfolded s1]
  from icontroller_returns [of s1 lo hi mx u] fr(3,4) frm assms(2,4,5)
  obtain cvl where ic: "icontroller u s1 = Inr cvl" by auto
  let ?r = "float_regime u now set_time s1"
  have a: "cell_count s1 = Some n" "control_voltage s1 = Some cv" "charge_mode s1 = Some m"
    "transition_start_time s1 = Some t0" "initial_control_voltage s1 = Some icv"
    using assms fr frf by simp_all
  note fl = float_regime_transition [OF a(1) a(2) assms(9) a(3) assms(11) a(4) a(5),
      of u now set_time, unfolded fr(7)]
  from fl have r: "?r = Return (state_of ?r)" by (simp add: returns_Return)
  have e: "emit_cvl u now set_time (pack_voltage_sum s) (penalty_total u s)
             (list_ex (above_ceiling u s) (counted_cells s)) cvl s1 = Return (state_of ?r)"
    unfolding emit_cvl_def using assms(7) r by simp
  from fl assms(7) obtain v' m' where
    s2: "\<not> allow_max_voltage (state_of ?r)" "control_voltage (state_of ?r) = Some v'"
      "charge_mode (state_of ?r) = Some m'"
    by (auto simp add: Let_def)
  have "manage_charge_voltage_linear_try u now set_time s
      = Return ((state_of ?r)\<lparr>charge_mode := Some (m' @ '' (Linear Mode)'')\<rparr>)"
    unfolding manage_charge_voltage_linear_try_def
    using assms(1,2,3,6) e ic
    by (simp add: scan_cells_closed mode_suffix_float [OF s2])
  then have "manage_charge_voltage_linear u now set_time s
      = Return ((state_of ?r)\<lparr>charge_mode := Some (m' @ '' (Linear Mode)'')\<rparr>)"
    unfolding manage_charge_voltage_linear_def by simp
  with fl s2(3) show ?thesis by (simp add: Let_def)
qed

text \<open>
  C7 (as stated, refuted): the ramp ends at the rounded float voltage. With
  \<open>FLOAT_CELL_VOLTAGE = 3.3751\<close> and four cells the claim's formula gives 13.5004 V
  after 1000 seconds; the code commits 13.5 V.
\<close>

theorem float_transition_ramp_counterexample:
  "cell_count floating_pack = Some 4
   \<and> FLOAT_CELL_VOLTAGE fine_float_utils * 4 = 135004 / 10000
   \<and> initial_control_voltage floating_pack = Some (138 / 10)
   \<and> transition_start_time floating_pack = Some 1000
   \<and> 138 / 10 - min (1 / 1000 * of_int (2000 - 1000))
                     (138 / 10 - FLOAT_CELL_VOLTAGE fine_float_utils * 4) = 135004 / 10000
   \<and> control_voltage (state_of (manage_charge_voltage_linear fine_float_utils 2000 2000
        floating_pack)) = Some (135 / 10)
   \<and> charge_mode (state_of (manage_charge_voltage_linear fine_float_utils 2000 2000
        floating_pack)) = Some ''Float (Linear Mode)''"
  by code_simp

lemma floating_pack_facts:
  "cell_count floating_pack = Some 4"
  "get_max_cell_voltage floating_pack = Some (340 / 100)"
  "get_min_cell_voltage floating_pack = Some (340 / 100)"
  "min_battery_voltage floating_pack = Some (116 / 10)"
  "max_battery_voltage floating_pack = Some (138 / 10)"
  "returns (absorption_timer scenario_utils 1010 (pack_voltage_sum floating_pack)
     (340 / 100 - 340 / 100) floating_pack)"
  "\<not> allow_max_voltage (state_of (absorption_timer scenario_utils 1010
     (pack_voltage_sum floating_pack) (340 / 100 - 340 / 100) floating_pack))"
  "control_voltage floating_pack = Some (138 / 10)"
  "(138 / 10 :: rat) \<noteq> 0"
  "charge_mode floating_pack = Some ''Float Transition (Linear Mode)''"
  "prefix ''Float Transition'' ''Float Transition (Linear Mode)''"
  "transition_start_time floating_pack = Some 1000"
  "initial_control_voltage floating_pack = Some (138 / 10)"
  by code_simp+

lemma floating_pack_values:
  "(let float_V = py_round (FLOAT_CELL_VOLTAGE scenario_utils * of_int 4) 3;
        target = 138 / 10 - min (of_int (1010 - 1000) / 1000) (138 / 10 - float_V);
        committed = (if LINEAR_RECALCULATION_EVERY scenario_utils
                          \<le> of_int (1010 - linear_cvl_last_set floating_pack)
                     then target else 138 / 10)
    in Some (if committed \<le> float_V then float_V else committed)) = Some (1379 / 100)"
  "(let float_V = py_round (FLOAT_CELL_VOLTAGE scenario_utils * of_int 4) 3;
        target = 138 / 10 - min (of_int (1010 - 1000) / 1000) (138 / 10 - float_V);
        committed = (if LINEAR_RECALCULATION_EVERY scenario_utils
                          \<le> of_int (1010 - linear_cvl_last_set floating_pack)
                     then target else 138 / 10)
    in Some ((if committed \<le> float_V then ''Float'' else ''Float Transition'')
             @ '' (Linear Mode)'')) = Some ''Float Transition (Linear Mode)''"
  by code_simp+

text \<open>Scenario D: ten seconds into the transition the CVL is 13.79 V.\<close>

theorem float_transition_ramp_witness:
  "\<not> allow_max_voltage (state_of (absorption_timer scenario_utils 1010
        (pack_voltage_sum floating_pack) (340 / 100 - 340 / 100) floating_pack))
   \<and> charge_mode floating_pack = Some ''Float Transition (Linear Mode)''
   \<and> transition_start_time floating_pack = Some 1000
   \<and> initial_control_voltage floating_pack = Some (138 / 10)
   \<and> returns (manage_charge_voltage_linear scenario_utils 1010 1010 floating_pack)
   \<and> control_voltage (state_of (manage_charge_voltage_linear scenario_utils 1010 1010
        floating_pack)) = Some (1379 / 100)
   \<and> charge_mode (state_of (manage_charge_voltage_linear scenario_utils 1010 1010
        floating_pack)) = Some ''Float Transition (Linear Mode)''"
proof -
  note f = floating_pack_facts
  note c = float_transition_ramp [OF f(1) f(2) f(3) f(4) f(5) returns_Return [OF f(6)] f(7)
      f(8) f(9) f(10) f(11) f(12) f(13), of 1010, unfolded floating_pack_values]
  from c f(7,10,12,13) show ?thesis by (simp only: simp_thms)
qed

end
